theory Spec2Isabelle
  imports Main "HOL-Library.Char_ord" "HOL-Library.List_Lexorder"
begin

section \<open>The TypeScript interface generator of the JSON viewer\<close>

text \<open>
  A shallow embedding of \<^verbatim>\<open>src/services/typeScriptGenerator.ts\<close> (class
  \<^verbatim>\<open>TypeScriptGenerator\<close>). The four private fields of the class are a record that every
  method takes and returns; a thrown \<^verbatim>\<open>TypeError\<close> is the left injection of a sum.

  Conventions of the embedding:
  \<^item> a string is a list of 8-bit characters standing for the code units of an ASCII string;
    upper and lower case, digits and white space are the ASCII ones;
  \<^item> an object is the list of its own entries in the order of \<^verbatim>\<open>Object.entries\<close>
    (array-index keys first in ascending order, then the other keys in creation order);
  \<^item> a number carries an integer payload; the generator only ever inspects \<^verbatim>\<open>typeof\<close>;
  \<^item> the value \<^verbatim>\<open>undefined\<close> is not a JSON value, so the branches of the source that test a
    JSON value for it are never taken and are left out;
  \<^item> \<^verbatim>\<open>String.prototype.localeCompare\<close> belongs to the platform and is a parameter \<open>lc\<close>.
\<close>

subsection \<open>JSON values\<close>

datatype json =
    JNull
  | JBool bool
  | JNum int
  | JStr string
  | JArr "json list"
  | JObj "(string \<times> json) list"

datatype error = TypeError

text \<open>A name hint as the methods receive it: \<^verbatim>\<open>undefined\<close>, a string, or a member of
  \<^verbatim>\<open>Object.prototype\<close> (a function or an object: truthy, and without string methods) that a
  lookup in an object literal used as a dictionary has returned.\<close>

datatype hint = HNone | HStr string | HProto

subsection \<open>Strings\<close>

definition lowerChars :: string where
  "lowerChars = ''abcdefghijklmnopqrstuvwxyz''"

definition upperChars :: string where
  "upperChars = ''ABCDEFGHIJKLMNOPQRSTUVWXYZ''"

definition digitChars :: string where
  "digitChars = ''0123456789''"

definition toUpperChar :: "char \<Rightarrow> char" where
  "toUpperChar c = (case map_of (zip lowerChars upperChars) c of Some u \<Rightarrow> u | None \<Rightarrow> c)"

definition toLowerChar :: "char \<Rightarrow> char" where
  "toLowerChar c = (case map_of (zip upperChars lowerChars) c of Some l \<Rightarrow> l | None \<Rightarrow> c)"

definition toLowerCase :: "string \<Rightarrow> string" where
  "toLowerCase s = map toLowerChar s"

definition isDigit :: "char \<Rightarrow> bool" where
  "isDigit c = (c \<in> set digitChars)"

definition isSpace :: "char \<Rightarrow> bool" where
  \<comment> \<open>the ASCII members of the class \<^verbatim>\<open>\s\<close>: space, tab, line feed, vertical tab, form feed, carriage return\<close>
  "isSpace c = (c \<in> set [CHR '' '', CHR 0x09, CHR 0x0A, CHR 0x0B, CHR 0x0C, CHR 0x0D])"

definition endsWith :: "string \<Rightarrow> string \<Rightarrow> bool" where
  "endsWith s suf = (length suf \<le> length s \<and> drop (length s - length suf) s = suf)"

definition startsWith :: "string \<Rightarrow> string \<Rightarrow> bool" where
  "startsWith s pre = (take (length pre) s = pre)"

definition dropEnd :: "nat \<Rightarrow> string \<Rightarrow> string" where
  \<comment> \<open>\<^verbatim>\<open>s.slice(0, -n)\<close>\<close>
  "dropEnd n s = take (length s - n) s"

definition stripPrefix :: "string \<Rightarrow> string \<Rightarrow> string" where
  \<comment> \<open>\<^verbatim>\<open>s.replace(/^pre/, '')\<close>\<close>
  "stripPrefix pre s = (if startsWith s pre then drop (length pre) s else s)"

definition stripSuffix :: "string \<Rightarrow> string \<Rightarrow> string" where
  \<comment> \<open>\<^verbatim>\<open>s.replace(/suf$/, '')\<close>\<close>
  "stripSuffix suf s = (if endsWith s suf then dropEnd (length suf) s else s)"

definition stripTrailingDigits :: "string \<Rightarrow> string" where
  \<comment> \<open>\<^verbatim>\<open>s.replace(/\d+$/, '')\<close>\<close>
  "stripTrailingDigits s = rev (dropWhile isDigit (rev s))"

definition capitalize :: "string \<Rightarrow> string" where
  \<comment> \<open>\<^verbatim>\<open>s.charAt(0).toUpperCase() + s.slice(1)\<close>\<close>
  "capitalize s = (case s of [] \<Rightarrow> [] | c # cs \<Rightarrow> toUpperChar c # cs)"

definition trim :: "string \<Rightarrow> string" where
  "trim s = rev (dropWhile isSpace (rev (dropWhile isSpace s)))"

fun join :: "string \<Rightarrow> string list \<Rightarrow> string" where
  "join sep [] = []"
| "join sep [x] = x"
| "join sep (x # y # ys) = x @ sep @ join sep (y # ys)"

fun split :: "char \<Rightarrow> string \<Rightarrow> string list" where
  \<comment> \<open>\<^verbatim>\<open>s.split(c)\<close> for a separator of one character\<close>
  "split c [] = [[]]"
| "split c (x # xs) =
     (if x = c then [] # split c xs
      else (case split c xs of [] \<Rightarrow> [[x]] | p # ps \<Rightarrow> (x # p) # ps))"

fun digitsOf :: "nat \<Rightarrow> string" where
  \<comment> \<open>the decimal numeral of a counter, as template interpolation writes it\<close>
  "digitsOf n = (if n < 10 then [digitChars ! n] else digitsOf (n div 10) @ [digitChars ! (n mod 10)])"

definition digitValue :: "char \<Rightarrow> int" where
  "digitValue c = int (length (takeWhile (\<lambda>d. d \<noteq> c) digitChars))"

definition numberOf :: "string \<Rightarrow> int" where
  "numberOf s = foldl (\<lambda>n c. 10 * n + digitValue c) 0 s"

subsection \<open>Objects used as dictionaries, maps and sets\<close>

text \<open>The names that every object literal inherits from \<^verbatim>\<open>Object.prototype\<close>. Reading one of
  them from an object that has no own property of that name gives a function (or, for
  \<^verbatim>\<open>__proto__\<close>, the prototype object), which is truthy.\<close>

definition protoNames :: "string list" where
  "protoNames = [''constructor'', ''__defineGetter__'', ''__defineSetter__'', ''hasOwnProperty'',
     ''__lookupGetter__'', ''__lookupSetter__'', ''isPrototypeOf'', ''propertyIsEnumerable'',
     ''toString'', ''valueOf'', ''__proto__'', ''toLocaleString'']"

definition isArrayIndex :: "string \<Rightarrow> bool" where
  \<comment> \<open>a canonical numeric string below \<open>2\<^sup>3\<^sup>2 - 1\<close>: such keys are enumerated first, in numeric order\<close>
  "isArrayIndex s = (s \<noteq> [] \<and> list_all isDigit s \<and> (s = ''0'' \<or> hd s \<noteq> CHR ''0'')
     \<and> length s \<le> 10 \<and> numberOf s < 4294967295)"

fun insertIndexKey :: "(string \<times> 'v) list \<Rightarrow> string \<Rightarrow> 'v \<Rightarrow> (string \<times> 'v) list" where
  "insertIndexKey [] k v = [(k, v)]"
| "insertIndexKey ((k', v') # m) k v =
     (if isArrayIndex k' \<and> numberOf k' < numberOf k then (k', v') # insertIndexKey m k v
      else (k, v) # (k', v') # m)"

fun replaceValue :: "('k \<times> 'v) list \<Rightarrow> 'k \<Rightarrow> 'v \<Rightarrow> ('k \<times> 'v) list" where
  "replaceValue [] k v = []"
| "replaceValue ((k', v') # m) k v =
     (if k' = k then (k, v) # m else (k', v') # replaceValue m k v)"

definition objSet :: "(string \<times> 'v) list \<Rightarrow> string \<Rightarrow> 'v \<Rightarrow> (string \<times> 'v) list" where
  \<comment> \<open>\<^verbatim>\<open>o[k] = v\<close> on an object literal: an own property keeps its place; a new one is placed by
      the enumeration order; the assignment to \<^verbatim>\<open>__proto__\<close> creates no own property\<close>
  "objSet m k v =
     (if k = ''__proto__'' then m
      else if k \<in> fst ` set m then replaceValue m k v
      else if isArrayIndex k then insertIndexKey m k v
      else m @ [(k, v)])"

definition mapSet :: "('k \<times> 'v) list \<Rightarrow> 'k \<Rightarrow> 'v \<Rightarrow> ('k \<times> 'v) list" where
  \<comment> \<open>\<^verbatim>\<open>Map.prototype.set\<close>: a present key keeps its place, a new key goes last\<close>
  "mapSet m k v = (if k \<in> fst ` set m then replaceValue m k v else m @ [(k, v)])"

definition setAdd :: "'a list \<Rightarrow> 'a \<Rightarrow> 'a list" where
  \<comment> \<open>\<^verbatim>\<open>Set.prototype.add\<close>, the set listed in insertion order\<close>
  "setAdd s x = (if x \<in> set s then s else s @ [x])"

subsection \<open>Names\<close>

definition singularize :: "string \<Rightarrow> string" where
  \<comment> \<open>the block that both name-cleaning methods contain: lines 600-614 and 669-682\<close>
  "singularize cleanName =
     (if endsWith cleanName ''s'' \<and> length cleanName > 1 then
        (if endsWith cleanName ''ies'' then dropEnd 3 cleanName @ ''y''
         else if endsWith cleanName ''ouses'' then dropEnd 1 cleanName
         else if endsWith cleanName ''ses'' \<or> endsWith cleanName ''xes'' \<or> endsWith cleanName ''zes''
           then dropEnd 2 cleanName
         else if endsWith cleanName ''ches'' \<or> endsWith cleanName ''shes'' then dropEnd 2 cleanName
         else if \<not> endsWith cleanName ''ss'' then dropEnd 1 cleanName
         else cleanName)
      else cleanName)"

definition generateCleanInterfaceName :: "hint \<Rightarrow> bool \<Rightarrow> error + string" where
  "generateCleanInterfaceName suggestedName isGeneric =
     (case suggestedName of
        HNone \<Rightarrow> Inr (if isGeneric then ''Item'' else ''Interface'')
      | HProto \<Rightarrow> Inl TypeError
      | HStr s \<Rightarrow>
          if s = [] then Inr (if isGeneric then ''Item'' else ''Interface'')
          else
            let cleanName = stripSuffix ''Type'' (stripSuffix ''Item''
                              (stripSuffix ''Interface'' (stripPrefix ''Root'' s)));
                cleanName = singularize cleanName;
                cleanName = capitalize cleanName
            in Inr (if cleanName = [] then ''Item'' else cleanName))"

definition commonMappings :: "(string \<times> string) list" where
  "commonMappings =
     [(''address'', ''Address''), (''location'', ''Location''), (''user'', ''User''),
      (''users'', ''User''), (''author'', ''Author''), (''authors'', ''Author''),
      (''owner'', ''Owner''), (''owners'', ''Owner''), (''settings'', ''Settings''),
      (''config'', ''Config''), (''configuration'', ''Configuration''),
      (''metadata'', ''Metadata''), (''meta'', ''Meta''), (''item'', ''Item''),
      (''items'', ''Item''), (''product'', ''Product''), (''products'', ''Product''),
      (''order'', ''Order''), (''orders'', ''Order''), (''payment'', ''Payment''),
      (''payments'', ''Payment''), (''customer'', ''Customer''), (''customers'', ''Customer''),
      (''contact'', ''Contact''), (''contacts'', ''Contact''), (''contactInfo'', ''ContactInfo''),
      (''apiEndpoint'', ''ApiEndpoint''), (''apiEndpoints'', ''ApiEndpoint'')]"

definition generateCleanChildName :: "string \<Rightarrow> hint" where
  "generateCleanChildName propertyName =
     (let cleanName = capitalize propertyName;
          lowerProp = toLowerCase propertyName
      in case map_of commonMappings lowerProp of
           Some n \<Rightarrow> HStr n
         | None \<Rightarrow>
             if lowerProp \<in> set protoNames then HProto
             else HStr (singularize cleanName))"

definition escapePropertyName :: "string \<Rightarrow> string" where
  \<comment> \<open>the test \<^verbatim>\<open>/^[a-zA-Z_$][a-zA-Z0-9_$]*$/\<close>\<close>
  "escapePropertyName name =
     (let start = (\<lambda>c. c \<in> set lowerChars \<or> c \<in> set upperChars \<or> c = CHR ''_'' \<or> c = CHR ''$'');
          part = (\<lambda>c. start c \<or> isDigit c)
      in case name of
           c # cs \<Rightarrow> if start c \<and> list_all part cs then name else [CHR 0x22] @ name @ [CHR 0x22]
         | [] \<Rightarrow> [CHR 0x22] @ name @ [CHR 0x22])"

subsection \<open>The registry\<close>

record gen_state =
  interfaces :: "(string \<times> string) list"
  interfaceStructures :: "(string \<times> string) list"
  usedNames :: "string list"
  structureToNames :: "(string \<times> string list) list"

definition emptyState :: gen_state where
  \<comment> \<open>the four \<^verbatim>\<open>clear()\<close> calls that open \<^verbatim>\<open>generateFromJson\<close>\<close>
  "emptyState = \<lparr>interfaces = [], interfaceStructures = [], usedNames = [], structureToNames = []\<rparr>"

function uniqueFrom :: "string list \<Rightarrow> string \<Rightarrow> nat \<Rightarrow> string" where
  \<comment> \<open>the \<^verbatim>\<open>while\<close> loop of \<^verbatim>\<open>ensureUniqueName\<close>, entered with the counter and
      \<^verbatim>\<open>uniqueName = baseName + counter\<close>\<close>
  "uniqueFrom used baseName counter =
     (if baseName @ digitsOf counter \<in> set used then uniqueFrom used baseName (Suc counter)
      else baseName @ digitsOf counter)"
  by pat_completeness auto

declare digitsOf.simps [simp del]

lemma digitValue_digit: "d < 10 \<Longrightarrow> digitValue (digitChars ! d) = int d"
proof -
  assume "d < 10"
  then have "d \<in> {0, 1, 2, 3, 4, 5, 6, 7, 8, 9}" by auto
  then show ?thesis
    by (auto simp: digitValue_def digitChars_def)
qed

lemma numberOf_snoc: "numberOf (s @ [c]) = 10 * numberOf s + digitValue c"
  by (simp add: numberOf_def)

lemma numberOf_digitsOf: "numberOf (digitsOf n) = int n"
proof (induction n rule: digitsOf.induct)
  case (1 n)
  show ?case
  proof (cases "n < 10")
    case True
    then show ?thesis
      using digitValue_digit [of n] by (simp add: digitsOf.simps [of n] numberOf_def)
  next
    case False
    then have "numberOf (digitsOf n) = 10 * int (n div 10) + int (n mod 10)"
      using 1 digitValue_digit [of "n mod 10"]
      by (simp add: digitsOf.simps [of n] numberOf_snoc)
    also have "\<dots> = int n"
      by (simp add: zdiv_int zmod_int)
    finally show ?thesis .
  qed
qed

lemma digitsOf_inj: "digitsOf m = digitsOf n \<Longrightarrow> m = n"
  by (metis numberOf_digitsOf of_nat_eq_iff)

lemma finite_suffixed: "finite {k. baseName @ digitsOf k \<in> set used}"
proof -
  have "inj (\<lambda>k. baseName @ digitsOf k)"
    by (auto simp: inj_def dest: digitsOf_inj)
  then have "finite ((\<lambda>k. baseName @ digitsOf k) -` set used)"
    by (intro finite_vimageI) auto
  then show ?thesis by (simp add: vimage_def)
qed

termination uniqueFrom
proof (relation "measure (\<lambda>(used, baseName, counter).
          card {k. counter \<le> k \<and> baseName @ digitsOf k \<in> set used})")
  show "wf (measure (\<lambda>(used, baseName, counter).
          card {k. counter \<le> k \<and> baseName @ digitsOf k \<in> set used}))"
    by simp
next
  fix used :: "string list" and baseName :: string and counter :: nat
  assume mem: "baseName @ digitsOf counter \<in> set used"
  let ?A = "{k. counter \<le> k \<and> baseName @ digitsOf k \<in> set used}"
  let ?B = "{k. Suc counter \<le> k \<and> baseName @ digitsOf k \<in> set used}"
  have fin: "finite ?A"
    by (rule finite_subset [OF _ finite_suffixed [of baseName used]]) auto
  have "counter \<in> ?A" "counter \<notin> ?B" "?B \<subseteq> ?A" using mem by auto
  then have "?B \<subset> ?A" by blast
  then have "card ?B < card ?A" using fin by (rule psubset_card_mono [rotated])
  then show "((used, baseName, Suc counter), (used, baseName, counter))
      \<in> measure (\<lambda>(used, baseName, counter).
          card {k. counter \<le> k \<and> baseName @ digitsOf k \<in> set used})"
    by simp
qed

declare uniqueFrom.simps [simp del]

definition ensureUniqueName :: "string \<Rightarrow> gen_state \<Rightarrow> string" where
  "ensureUniqueName baseName st =
     (if baseName \<notin> set (usedNames st) then baseName else uniqueFrom (usedNames st) baseName 2)"

subsection \<open>Structural signatures\<close>

fun typeof :: "json \<Rightarrow> string" where
  "typeof (JBool b) = ''boolean''"
| "typeof (JNum n) = ''number''"
| "typeof (JStr s) = ''string''"
| "typeof v = ''object''"

fun getSimpleType :: "json \<Rightarrow> string" where
  "getSimpleType JNull = ''null''"
| "getSimpleType (JArr []) = ''array''"
| "getSimpleType (JArr (first # rest)) = getSimpleType first @ ''[]''"
| "getSimpleType (JObj obj) = ''object''"
| "getSimpleType v = typeof v"

type_synonym property_types = "(string \<times> string list) list"

definition structureType :: "property_types option \<Rightarrow> string \<Rightarrow> json \<Rightarrow> string" where
  \<comment> \<open>the body of the loop of \<^verbatim>\<open>generateInterfaceStructure\<close>. The method gets
      \<^verbatim>\<open>propertyTypes\<close> only from \<^verbatim>\<open>generateArrayType\<close>, where every key of the shape is an
      own key of it, so the lookup is the lookup of an own property.\<close>
  "structureType propertyTypes key value =
     (case (case propertyTypes of None \<Rightarrow> None | Some pt \<Rightarrow> map_of pt key) of
        Some tys \<Rightarrow>
          (let types = sort (filter (\<lambda>t. t \<noteq> ''missing'' \<and> t \<noteq> ''undefined'') tys)
           in if length types > 1 then ''('' @ join ''|'' types @ '')''
              else (case types of [] \<Rightarrow> ''unknown'' | t # ts \<Rightarrow> if t = [] then ''unknown'' else t))
      | None \<Rightarrow> getSimpleType value)"

definition generateInterfaceStructure ::
  "(string \<times> json) list \<Rightarrow> property_types option \<Rightarrow> string" where
  "generateInterfaceStructure obj propertyTypes =
     join '';'' (sort (map (\<lambda>(key, value). key @ '':'' @ structureType propertyTypes key value) obj))"

definition findExistingInterface :: "string \<Rightarrow> gen_state \<Rightarrow> string option" where
  "findExistingInterface structure st =
     map_option fst (find (\<lambda>(name, existingStructure). existingStructure = structure)
                          (interfaceStructures st))"

definition parseStructure :: "string \<Rightarrow> (string \<times> string) list" where
  "parseStructure structure =
     foldl (\<lambda>props part.
              case split CHR '':'' part of
                key # type # others \<Rightarrow> if key \<noteq> [] \<and> type \<noteq> [] then objSet props key type else props
              | _ \<Rightarrow> props)
           [] (split CHR '';'' structure)"

definition haveSamePropertyNames :: "string list \<Rightarrow> string list \<Rightarrow> bool" where
  "haveSamePropertyNames set1 set2 =
     (length set1 = length set2 \<and> list_all (\<lambda>prop. prop \<in> set set2) set1)"

definition findSimilarInterface :: "string \<Rightarrow> string \<Rightarrow> gen_state \<Rightarrow> string option" where
  "findSimilarInterface structure suggestedName st =
     (let baseName = stripTrailingDigits suggestedName;
          newPropNames = map fst (parseStructure structure)
      in map_option fst
           (find (\<lambda>(existingName, existingStructure).
                    stripTrailingDigits existingName = baseName
                    \<and> haveSamePropertyNames newPropNames (map fst (parseStructure existingStructure)))
                 (interfaceStructures st)))"

subsection \<open>Reading a definition back from its text\<close>

text \<open>The pattern of \<^verbatim>\<open>parseInterfaceContent\<close> is a sequence of greedy repetitions of one
  character class each, closed by the end of the line. \<open>Atom cls lo hi\<close> repeats the class
  \<open>cls\<close> at least \<open>lo\<close> times and at most \<open>hi\<close> times (without bound for \<open>None\<close>). The matcher
  tries the longest repetition first and backs off one character at a time, which is the
  order of a backtracking matcher; its result lists what each atom has consumed.\<close>

datatype atom = Atom "char \<Rightarrow> bool" nat "nat option"

function rxMatch :: "atom list \<Rightarrow> string \<Rightarrow> string list option"
  and rxTry :: "atom list \<Rightarrow> string \<Rightarrow> nat \<Rightarrow> nat \<Rightarrow> string list option" where
  "rxMatch [] s = (if s = [] then Some [] else None)"
| "rxMatch (Atom cls lo hi # atoms) s =
     (let n = length (takeWhile cls s);
          m = (case hi of None \<Rightarrow> n | Some h \<Rightarrow> min h n)
      in if m < lo then None else rxTry atoms s lo m)"
| "rxTry atoms s lo k =
     (case rxMatch atoms (drop k s) of
        Some caps \<Rightarrow> Some (take k s # caps)
      | None \<Rightarrow> if k \<le> lo then None else rxTry atoms s lo (k - 1))"
  by pat_completeness auto
termination
  by (relation "inv_image (less_than <*lex*> less_than)
        (\<lambda>x. case x of Inl (atoms, s) \<Rightarrow> (2 * length atoms, 0)
                | Inr (atoms, s, lo, k) \<Rightarrow> (2 * length atoms + 1, k))") auto

declare rxTry.simps [simp del]

definition propertyPattern :: "atom list" where
  \<comment> \<open>\<^verbatim>\<open>/^\s*"?([^"?:]+)"?(\?)?\s*:\s*(.+);?\s*$/\<close>; the dot excludes the line terminators\<close>
  "propertyPattern =
     [Atom isSpace 0 None,
      Atom (\<lambda>c. c = CHR 0x22) 0 (Some 1),
      Atom (\<lambda>c. c \<noteq> CHR 0x22 \<and> c \<noteq> CHR ''?'' \<and> c \<noteq> CHR '':'') 1 None,
      Atom (\<lambda>c. c = CHR 0x22) 0 (Some 1),
      Atom (\<lambda>c. c = CHR ''?'') 0 (Some 1),
      Atom isSpace 0 None,
      Atom (\<lambda>c. c = CHR '':'') 1 (Some 1),
      Atom isSpace 0 None,
      Atom (\<lambda>c. c \<noteq> CHR 0x0A \<and> c \<noteq> CHR 0x0D) 1 None,
      Atom (\<lambda>c. c = CHR '';'') 0 (Some 1),
      Atom isSpace 0 None]"

type_synonym props = "(string \<times> string \<times> bool) list"

definition parseInterfaceContent :: "string \<Rightarrow> props" where
  "parseInterfaceContent content =
     foldl (\<lambda>props line.
              case rxMatch propertyPattern line of
                Some caps \<Rightarrow>
                  objSet props (caps ! 2) (trim (stripSuffix '';'' (caps ! 8)), caps ! 4 \<noteq> [])
              | None \<Rightarrow> props)
           [] (split CHR 0x0A content)"

fun unionParts :: "string \<Rightarrow> string \<Rightarrow> int \<Rightarrow> string list \<Rightarrow> string list" where
  \<comment> \<open>the loop of \<^verbatim>\<open>parseUnionType\<close> over the characters, and the push after it\<close>
  "unionParts [] current depth types = (if trim current \<noteq> [] then types @ [trim current] else types)"
| "unionParts (c # cs) current depth types =
     (if c = CHR ''('' \<or> c = CHR ''['' then unionParts cs (current @ [c]) (depth + 1) types
      else if c = CHR '')'' \<or> c = CHR '']'' then unionParts cs (current @ [c]) (depth - 1) types
      else if c = CHR ''|'' \<and> depth = 0 then
        unionParts cs [] depth (if trim current \<noteq> [] then types @ [trim current] else types)
      else unionParts cs (current @ [c]) depth types)"

definition parseUnionType :: "string \<Rightarrow> string list" where
  \<comment> \<open>\<^verbatim>\<open>type.replace(/^\(|\)$/g, '')\<close> drops an opening parenthesis at the start and a closing one
      at the end, each on its own\<close>
  "parseUnionType type =
     (let t1 = stripPrefix ''('' type;
          t2 = stripSuffix '')'' t1
      in unionParts t2 [] 0 [])"

definition generateInterfaceStructureFromProps :: "props \<Rightarrow> string" where
  "generateInterfaceStructureFromProps props =
     join '';'' (sort (map (\<lambda>(key, type, optional). key @ '':'' @ type) props))"

definition propertyLine :: "string \<Rightarrow> bool \<Rightarrow> string \<Rightarrow> string" where
  \<comment> \<open>the template \<^verbatim>\<open>`  ${propertyName}${optional ? '?' : ''}: ${type};`\<close> of both renderers\<close>
  "propertyLine key optional type =
     ''  '' @ escapePropertyName key @ (if optional then ''?'' else []) @ '': '' @ type @ '';''"

definition interfaceText :: "string \<Rightarrow> string list \<Rightarrow> string" where
  \<comment> \<open>the header, the property lines with a line feed between them, and the closing brace\<close>
  "interfaceText name lines =
     ''export interface '' @ name @ '' {'' @ [CHR 0x0A] @ join [CHR 0x0A] lines @ [CHR 0x0A] @ ''}''"

subsection \<open>Union types and optionality of one property\<close>

definition dropUnknownArray :: "string list \<Rightarrow> string list" where
  \<comment> \<open>\<^verbatim>\<open>unknown[]\<close> goes when another array type is there (lines 222-226, 385-388, 575-578)\<close>
  "dropUnknownArray types =
     (let arrayTypes = filter (\<lambda>t. endsWith t ''[]'') types
      in if length arrayTypes > 1 \<and> ''unknown[]'' \<in> set arrayTypes then remove1 ''unknown[]'' types
         else types)"

definition typedProperty :: "string list \<Rightarrow> string \<times> bool" where
  \<comment> \<open>lines 213-245 of \<^verbatim>\<open>generateObjectType\<close>: the type and the optionality of a property
      from its set of type labels\<close>
  "typedProperty types =
     (let isOptional = (''undefined'' \<in> set types \<or> ''missing'' \<in> set types);
          actualTypes = dropUnknownArray (filter (\<lambda>t. t \<noteq> ''missing'' \<and> t \<noteq> ''undefined'') types);
          propertyType = (if actualTypes = [] then ''unknown''
                          else if length actualTypes = 1 then hd actualTypes
                          else join '' | '' actualTypes);
          hasNull = (''null'' \<in> set actualTypes);
          hasRealType = list_ex (\<lambda>t. t \<noteq> ''null'' \<and> t \<noteq> ''undefined'') actualTypes
      in if hasNull \<and> hasRealType then (propertyType, False)
         else if isOptional \<and> ''undefined'' \<notin> set actualTypes then (propertyType @ '' | undefined'', isOptional)
         else (propertyType, isOptional))"

definition newTypedProperty :: "string list \<Rightarrow> string \<times> bool" where
  \<comment> \<open>lines 359-368 of \<^verbatim>\<open>mergeInterfaces\<close>\<close>
  "newTypedProperty types =
     (let isOptional = (''undefined'' \<in> set types \<or> ''missing'' \<in> set types);
          actualTypes = filter (\<lambda>t. t \<noteq> ''missing'' \<and> t \<noteq> ''undefined'') types
      in (if actualTypes = [] then ''unknown'' else join '' | '' actualTypes, isOptional))"

definition compareTypes :: "(string \<Rightarrow> string \<Rightarrow> int) \<Rightarrow> string \<Rightarrow> string \<Rightarrow> int" where
  \<comment> \<open>the comparator of lines 391-395\<close>
  "compareTypes lc a b =
     (if a = ''null'' \<or> a = ''undefined'' then 1
      else if b = ''null'' \<or> b = ''undefined'' then - 1
      else lc a b)"

fun insertBy :: "('a \<Rightarrow> 'a \<Rightarrow> int) \<Rightarrow> 'a \<Rightarrow> 'a list \<Rightarrow> 'a list" where
  "insertBy cmp x [] = [x]"
| "insertBy cmp x (y # ys) = (if cmp x y < 0 then x # y # ys else y # insertBy cmp x ys)"

definition sortBy :: "('a \<Rightarrow> 'a \<Rightarrow> int) \<Rightarrow> 'a list \<Rightarrow> 'a list" where
  \<comment> \<open>\<^verbatim>\<open>Array.prototype.sort\<close> with a comparator, as the stable insertion sort: every stable
      sort gives this result when the comparator is consistent\<close>
  "sortBy cmp xs = foldl (\<lambda>sorted x. insertBy cmp x sorted) [] xs"

definition mergedProperty ::
  "(string \<Rightarrow> string \<Rightarrow> int) \<Rightarrow> string \<times> bool \<Rightarrow> string \<Rightarrow> bool \<Rightarrow> string \<times> bool" where
  \<comment> \<open>lines 376-407 of \<^verbatim>\<open>mergeInterfaces\<close>: a property of the existing definition merged with
      the new type and optionality\<close>
  "mergedProperty lc existing newType isOptional =
     (let existingTypes = parseUnionType (fst existing);
          newTypes = parseUnionType newType;
          allTypes = dropUnknownArray (foldl setAdd [] (existingTypes @ newTypes));
          sortedTypes = sortBy (compareTypes lc) allTypes;
          hasNull = (''null'' \<in> set sortedTypes);
          hasRealType = list_ex (\<lambda>t. t \<noteq> ''null'' \<and> t \<noteq> ''undefined'') sortedTypes
      in (join '' | '' sortedTypes,
          if hasNull \<and> hasRealType then False else snd existing \<and> isOptional))"

definition arrayTypeOf :: "string list \<Rightarrow> string" where
  \<comment> \<open>lines 153-169 of \<^verbatim>\<open>generateArrayType\<close>\<close>
  "arrayTypeOf types =
     (if length types = 0 then ''unknown[]''
      else if length types = 1 then hd types @ ''[]''
      else
        (let concreteTypes = filter (\<lambda>t. t \<noteq> ''unknown'') types
         in if length concreteTypes > 0 then
              (if length concreteTypes = 1 then hd concreteTypes @ ''[]''
               else ''('' @ join '' | '' concreteTypes @ '')[]'')
            else ''('' @ join '' | '' types @ '')[]''))"

subsection \<open>Shapes of the objects of an array\<close>

fun objectsOf :: "json list \<Rightarrow> (string \<times> json) list list" where
  \<comment> \<open>\<^verbatim>\<open>objectShapes\<close>: the elements of the array that are objects, in order\<close>
  "objectsOf [] = []"
| "objectsOf (JObj obj # items) = obj # objectsOf items"
| "objectsOf (item # items) = objectsOf items"

definition shapeEntry :: "(string \<times> json) list \<Rightarrow> string \<times> json \<Rightarrow> (string \<times> json) list" where
  \<comment> \<open>lines 550-554: the representative value of a key is replaced while it is missing,
      \<^verbatim>\<open>null\<close>, or an empty array facing a non-empty one. A key that \<^verbatim>\<open>Object.prototype\<close>
      answers for reads as present.\<close>
  "shapeEntry shape entry =
     (case map_of shape (fst entry) of
        None \<Rightarrow> if fst entry \<in> set protoNames then shape else objSet shape (fst entry) (snd entry)
      | Some JNull \<Rightarrow> objSet shape (fst entry) (snd entry)
      | Some (JArr []) \<Rightarrow>
          (case snd entry of JArr (x # xs) \<Rightarrow> objSet shape (fst entry) (snd entry) | _ \<Rightarrow> shape)
      | Some _ \<Rightarrow> shape)"

definition mergedShape :: "(string \<times> json) list list \<Rightarrow> (string \<times> json) list" where
  \<comment> \<open>the \<^verbatim>\<open>shape\<close> that \<^verbatim>\<open>mergeObjectsWithUnionTypes\<close> returns; it reads the objects only, not
      the registry, and is kept apart from the type labels for that reason\<close>
  "mergedShape objects = foldl (\<lambda>shape obj. foldl shapeEntry shape obj) [] objects"

definition markMissing :: "string list \<Rightarrow> property_types \<Rightarrow> property_types" where
  \<comment> \<open>lines 558-562: after an object, the keys known so far that it lacks get \<^verbatim>\<open>missing\<close>\<close>
  "markMissing seenKeys propertyTypes =
     map (\<lambda>(key, types). (key, if key \<in> set seenKeys then types else setAdd types ''missing''))
         propertyTypes"

definition finishPropertyTypes ::
  "nat \<Rightarrow> (string \<times> nat) list \<Rightarrow> property_types \<Rightarrow> property_types" where
  \<comment> \<open>lines 566-579: \<^verbatim>\<open>missing\<close> for the keys that occur in fewer objects than there are, then
      the removal of \<^verbatim>\<open>unknown[]\<close> beside another array type\<close>
  "finishPropertyTypes n propertyOccurrences propertyTypes =
     map (\<lambda>(key, types).
            (key, dropUnknownArray
                    (if (case map_of propertyOccurrences key of None \<Rightarrow> 0 | Some k \<Rightarrow> k) < n
                     then setAdd types ''missing'' else types)))
         propertyTypes"

subsection \<open>The generator\<close>

type_synonym 'a result = "error + 'a \<times> gen_state"

definition ownTypes :: "property_types option \<Rightarrow> string \<Rightarrow> string list option" where
  \<comment> \<open>\<^verbatim>\<open>propertyTypes && propertyTypes[key]\<close>, see \<open>structureType\<close>\<close>
  "ownTypes propertyTypes key = (case propertyTypes of None \<Rightarrow> None | Some pt \<Rightarrow> map_of pt key)"

definition truthyName :: "string option \<Rightarrow> string option" where
  \<comment> \<open>the tests \<^verbatim>\<open>if (existingName)\<close> and \<^verbatim>\<open>if (similarInterface)\<close>: \<^verbatim>\<open>null\<close> and the empty
      string are falsy\<close>
  "truthyName r = (case r of Some (c # cs) \<Rightarrow> Some (c # cs) | _ \<Rightarrow> None)"

definition interfaceNameOf :: "hint \<Rightarrow> error + string" where
  \<comment> \<open>line 180, \<^verbatim>\<open>suggestedName || this.generateCleanInterfaceName('Interface', true)\<close>. A hint
      that is no string is kept by that line and makes \<^verbatim>\<open>findSimilarInterface\<close>, the first
      to use the name, throw at \<^verbatim>\<open>suggestedName.replace\<close>.\<close>
  "interfaceNameOf suggestedName =
     (case suggestedName of
        HProto \<Rightarrow> Inl TypeError
      | HStr (c # cs) \<Rightarrow> Inr (c # cs)
      | _ \<Rightarrow> generateCleanInterfaceName (HStr ''Interface'') True)"

definition registerInterface :: "string \<Rightarrow> string \<Rightarrow> string \<Rightarrow> gen_state \<Rightarrow> gen_state" where
  \<comment> \<open>lines 262-270\<close>
  "registerInterface uniqueName interfaceContent structure st =
     st\<lparr>interfaces := mapSet (interfaces st) uniqueName interfaceContent,
        interfaceStructures := mapSet (interfaceStructures st) uniqueName structure,
        usedNames := setAdd (usedNames st) uniqueName,
        structureToNames := mapSet (structureToNames st) structure
           ((case map_of (structureToNames st) structure of None \<Rightarrow> [] | Some names \<Rightarrow> names)
            @ [uniqueName])\<rparr>"

definition updateInterface :: "string \<Rightarrow> string \<Rightarrow> string \<Rightarrow> gen_state \<Rightarrow> gen_state" where
  \<comment> \<open>lines 428-432\<close>
  "updateInterface existingName newContent newStructure st =
     st\<lparr>interfaces := mapSet (interfaces st) existingName newContent,
        interfaceStructures := mapSet (interfaceStructures st) existingName newStructure\<rparr>"

definition sameStructures :: "(string \<times> json) list \<Rightarrow> (string \<times> json) list list \<Rightarrow> bool" where
  \<comment> \<open>\<^verbatim>\<open>allSame\<close>, lines 128-138\<close>
  "sameStructures firstObj others =
     list_all (\<lambda>obj. generateInterfaceStructure obj None = generateInterfaceStructure firstObj None)
              others"

fun jsize :: "json \<Rightarrow> nat" where
  "jsize (JArr arr) = Suc (sum_list (map jsize arr))"
| "jsize (JObj obj) = Suc (sum_list (map (\<lambda>entry. jsize (snd entry)) obj))"
| "jsize v = 1"

definition lsize :: "json list \<Rightarrow> nat" where
  "lsize arr = sum_list (map jsize arr)"

definition esize :: "(string \<times> json) list \<Rightarrow> nat" where
  "esize obj = sum_list (map (\<lambda>entry. jsize (snd entry)) obj)"

definition osize :: "(string \<times> json) list list \<Rightarrow> nat" where
  "osize objects = sum_list (map (\<lambda>obj. Suc (esize obj)) objects)"

function generateType :: "(string \<Rightarrow> string \<Rightarrow> int) \<Rightarrow> json \<Rightarrow> hint \<Rightarrow> gen_state \<Rightarrow> string result"
  and generateArrayType ::
    "(string \<Rightarrow> string \<Rightarrow> int) \<Rightarrow> json list \<Rightarrow> hint \<Rightarrow> gen_state \<Rightarrow> string result"
  and primitiveTypesOf ::
    "(string \<Rightarrow> string \<Rightarrow> int) \<Rightarrow> json list \<Rightarrow> hint \<Rightarrow> string list \<Rightarrow> gen_state
      \<Rightarrow> string list result"
  and generateObjectType ::
    "(string \<Rightarrow> string \<Rightarrow> int) \<Rightarrow> (string \<times> json) list \<Rightarrow> hint \<Rightarrow> property_types option
      \<Rightarrow> gen_state \<Rightarrow> string result"
  and objectProperties ::
    "(string \<Rightarrow> string \<Rightarrow> int) \<Rightarrow> (string \<times> json) list \<Rightarrow> property_types option
      \<Rightarrow> gen_state \<Rightarrow> string list result"
  and mergeInterfaces ::
    "(string \<Rightarrow> string \<Rightarrow> int) \<Rightarrow> string \<Rightarrow> (string \<times> json) list \<Rightarrow> property_types option
      \<Rightarrow> gen_state \<Rightarrow> string result"
  and mergeProperties ::
    "(string \<Rightarrow> string \<Rightarrow> int) \<Rightarrow> (string \<times> json) list \<Rightarrow> property_types option \<Rightarrow> props
      \<Rightarrow> gen_state \<Rightarrow> props result"
  and mergeObjectsWithUnionTypes ::
    "(string \<Rightarrow> string \<Rightarrow> int) \<Rightarrow> (string \<times> json) list list \<Rightarrow> gen_state
      \<Rightarrow> property_types result"
  and propertyTypesOf ::
    "(string \<Rightarrow> string \<Rightarrow> int) \<Rightarrow> (string \<times> json) list list \<Rightarrow> property_types
      \<Rightarrow> (string \<times> nat) list \<Rightarrow> gen_state \<Rightarrow> (property_types \<times> (string \<times> nat) list) result"
  and entryTypesOf ::
    "(string \<Rightarrow> string \<Rightarrow> int) \<Rightarrow> (string \<times> json) list \<Rightarrow> property_types
      \<Rightarrow> (string \<times> nat) list \<Rightarrow> gen_state \<Rightarrow> (property_types \<times> (string \<times> nat) list) result"
  where
  "generateType lc JNull suggestedName st = Inr (''null'', st)"
| "generateType lc (JBool b) suggestedName st = Inr (''boolean'', st)"
| "generateType lc (JNum n) suggestedName st = Inr (''number'', st)"
| "generateType lc (JStr s) suggestedName st = Inr (''string'', st)"
| "generateType lc (JArr arr) suggestedName st = generateArrayType lc arr suggestedName st"
| "generateType lc (JObj obj) suggestedName st = generateObjectType lc obj suggestedName None st"

| "generateArrayType lc arr suggestedName st =
     (case primitiveTypesOf lc arr suggestedName [] st of
        Inl e \<Rightarrow> Inl e
      | Inr (types, st1) \<Rightarrow>
          (case objectsOf arr of
             [] \<Rightarrow> Inr (arrayTypeOf types, st1)
           | firstObj # others \<Rightarrow>
               (case generateCleanInterfaceName suggestedName False of
                  Inl e \<Rightarrow> Inl e
                | Inr itemName \<Rightarrow>
                    if sameStructures firstObj others then
                      (case generateObjectType lc firstObj (HStr itemName) None st1 of
                         Inl e \<Rightarrow> Inl e
                       | Inr (objectType, st2) \<Rightarrow> Inr (arrayTypeOf (types @ [objectType]), st2))
                    else
                      (case mergeObjectsWithUnionTypes lc (objectsOf arr) st1 of
                         Inl e \<Rightarrow> Inl e
                       | Inr (propertyTypes, st2) \<Rightarrow>
                           (case generateObjectType lc (mergedShape (objectsOf arr)) (HStr itemName)
                                   (Some propertyTypes) st2 of
                              Inl e \<Rightarrow> Inl e
                            | Inr (objectType, st3) \<Rightarrow>
                                Inr (arrayTypeOf (types @ [objectType]), st3))))))"

| "primitiveTypesOf lc [] suggestedName primitiveTypes st = Inr (primitiveTypes, st)"
| "primitiveTypesOf lc (JNull # items) suggestedName primitiveTypes st =
     primitiveTypesOf lc items suggestedName (setAdd primitiveTypes ''null'') st"
| "primitiveTypesOf lc (JObj obj # items) suggestedName primitiveTypes st =
     primitiveTypesOf lc items suggestedName primitiveTypes st"
| "primitiveTypesOf lc (JArr item # items) suggestedName primitiveTypes st =
     (case generateArrayType lc item suggestedName st of
        Inl e \<Rightarrow> Inl e
      | Inr (nestedArrayType, st1) \<Rightarrow>
          primitiveTypesOf lc items suggestedName (setAdd primitiveTypes nestedArrayType) st1)"
| "primitiveTypesOf lc (JBool b # items) suggestedName primitiveTypes st =
     primitiveTypesOf lc items suggestedName (setAdd primitiveTypes (typeof (JBool b))) st"
| "primitiveTypesOf lc (JNum n # items) suggestedName primitiveTypes st =
     primitiveTypesOf lc items suggestedName (setAdd primitiveTypes (typeof (JNum n))) st"
| "primitiveTypesOf lc (JStr s # items) suggestedName primitiveTypes st =
     primitiveTypesOf lc items suggestedName (setAdd primitiveTypes (typeof (JStr s))) st"

| "generateObjectType lc obj suggestedName propertyTypes st =
     (case truthyName (findExistingInterface (generateInterfaceStructure obj propertyTypes) st) of
        Some existingName \<Rightarrow> Inr (existingName, st)
      | None \<Rightarrow>
          (case interfaceNameOf suggestedName of
             Inl e \<Rightarrow> Inl e
           | Inr interfaceName \<Rightarrow>
               (case truthyName (findSimilarInterface
                       (generateInterfaceStructure obj propertyTypes) interfaceName st) of
                  Some similarInterface \<Rightarrow> mergeInterfaces lc similarInterface obj propertyTypes st
                | None \<Rightarrow>
                    (case objectProperties lc obj propertyTypes st of
                       Inl e \<Rightarrow> Inl e
                     | Inr (lines, st1) \<Rightarrow>
                         Inr (ensureUniqueName interfaceName st,
                              registerInterface (ensureUniqueName interfaceName st)
                                (interfaceText (ensureUniqueName interfaceName st) lines)
                                (generateInterfaceStructure obj propertyTypes) st1)))))"

| "objectProperties lc [] propertyTypes st = Inr ([], st)"
| "objectProperties lc ((key, value) # entries) propertyTypes st =
     (case ownTypes propertyTypes key of
        Some types \<Rightarrow>
          (case objectProperties lc entries propertyTypes st of
             Inl e \<Rightarrow> Inl e
           | Inr (lines, st1) \<Rightarrow>
               Inr (propertyLine key (snd (typedProperty types)) (fst (typedProperty types)) # lines,
                    st1))
      | None \<Rightarrow>
          (case generateType lc value (generateCleanChildName key) st of
             Inl e \<Rightarrow> Inl e
           | Inr (propertyType, st1) \<Rightarrow>
               (case objectProperties lc entries propertyTypes st1 of
                  Inl e \<Rightarrow> Inl e
                | Inr (lines, st2) \<Rightarrow>
                    Inr (propertyLine key (value = JNull) propertyType # lines, st2))))"

| "mergeInterfaces lc existingName newObj newPropertyTypes st =
     (case map_of (interfaces st) existingName of
        None \<Rightarrow> Inr (existingName, st)
      | Some existingContent \<Rightarrow>
          if existingContent = [] then Inr (existingName, st)
          else
            (case mergeProperties lc newObj newPropertyTypes
                    (parseInterfaceContent existingContent) st of
               Inl e \<Rightarrow> Inl e
             | Inr (mergedProps, st1) \<Rightarrow>
                 Inr (existingName,
                      updateInterface existingName
                        (interfaceText existingName
                           (map (\<lambda>(key, type, optional). propertyLine key optional type) mergedProps))
                        (generateInterfaceStructureFromProps mergedProps) st1)))"

| "mergeProperties lc [] newPropertyTypes mergedProps st = Inr (mergedProps, st)"
| "mergeProperties lc ((key, value) # entries) newPropertyTypes mergedProps st =
     (case (case ownTypes newPropertyTypes key of
              Some types \<Rightarrow> Inr (newTypedProperty types, st)
            | None \<Rightarrow>
                (case generateType lc value (generateCleanChildName key) st of
                   Inl e \<Rightarrow> Inl e
                 | Inr (newType, st1) \<Rightarrow> Inr ((newType, value = JNull), st1))) of
        Inl e \<Rightarrow> Inl e
      | Inr (new, st1) \<Rightarrow>
          (case map_of mergedProps key of
             Some existing \<Rightarrow>
               mergeProperties lc entries newPropertyTypes
                 (objSet mergedProps key (mergedProperty lc existing (fst new) (snd new))) st1
           | None \<Rightarrow>
               if key \<in> set protoNames then Inl TypeError
               else mergeProperties lc entries newPropertyTypes (objSet mergedProps key new) st1))"

| "mergeObjectsWithUnionTypes lc objects st =
     (case propertyTypesOf lc objects [] [] st of
        Inl e \<Rightarrow> Inl e
      | Inr ((propertyTypes, propertyOccurrences), st1) \<Rightarrow>
          Inr (finishPropertyTypes (length objects) propertyOccurrences propertyTypes, st1))"

| "propertyTypesOf lc [] propertyTypes propertyOccurrences st =
     Inr ((propertyTypes, propertyOccurrences), st)"
| "propertyTypesOf lc (obj # objects) propertyTypes propertyOccurrences st =
     (case entryTypesOf lc obj propertyTypes propertyOccurrences st of
        Inl e \<Rightarrow> Inl e
      | Inr ((propertyTypes1, propertyOccurrences1), st1) \<Rightarrow>
          propertyTypesOf lc objects (markMissing (map fst obj) propertyTypes1)
            propertyOccurrences1 st1)"

| "entryTypesOf lc [] propertyTypes propertyOccurrences st =
     Inr ((propertyTypes, propertyOccurrences), st)"
| "entryTypesOf lc ((key, value) # entries) propertyTypes propertyOccurrences st =
     (case (case value of
              JArr arr \<Rightarrow> generateArrayType lc arr (generateCleanChildName key) st
            | JObj obj \<Rightarrow> generateObjectType lc obj (generateCleanChildName key) None st
            | JNull \<Rightarrow> Inr (''null'', st)
            | _ \<Rightarrow> Inr (typeof value, st)) of
        Inl e \<Rightarrow> Inl e
      | Inr (valueType, st1) \<Rightarrow>
          if key \<in> set protoNames then Inl TypeError
          else
            entryTypesOf lc entries
              (objSet propertyTypes key
                 (setAdd (case map_of propertyTypes key of None \<Rightarrow> [] | Some types \<Rightarrow> types)
                         valueType))
              (objSet propertyOccurrences key
                 (Suc (case map_of propertyOccurrences key of None \<Rightarrow> 0 | Some k \<Rightarrow> k)))
              st1)"
  by pat_completeness auto
lemma jsize_pos: "0 < jsize v"
  by (cases v) simp_all

lemma lsize_simps [simp]: "lsize [] = 0" "lsize (v # arr) = jsize v + lsize arr"
  by (simp_all add: lsize_def)

lemma esize_simps [simp]: "esize [] = 0" "esize (entry # obj) = jsize (snd entry) + esize obj"
  by (simp_all add: esize_def)

lemma esize_append [simp]: "esize (xs @ ys) = esize xs + esize ys"
  by (simp add: esize_def)

lemma osize_simps [simp]: "osize [] = 0" "osize (obj # objects) = Suc (esize obj + osize objects)"
  by (simp_all add: osize_def)

lemma jsize_JArr [simp]: "jsize (JArr arr) = Suc (lsize arr)"
  by (simp add: lsize_def)

lemma jsize_JObj [simp]: "jsize (JObj obj) = Suc (esize obj)"
  by (simp add: esize_def)

declare jsize.simps(1,2) [simp del]

lemma osize_objectsOf: "osize (objectsOf arr) \<le> lsize arr"
  by (induction arr rule: objectsOf.induct) simp_all

lemma esize_replaceValue: "esize (replaceValue m k v) \<le> esize m + jsize v"
  by (induction m) auto

lemma esize_insertIndexKey: "esize (insertIndexKey m k v) = esize m + jsize v"
  by (induction m) auto

lemma esize_objSet: "esize (objSet m k v) \<le> esize m + jsize v"
  using esize_replaceValue [of m k v]
  by (simp add: objSet_def esize_insertIndexKey)

lemma shapeEntry_cases:
  "shapeEntry shape entry = shape \<or> shapeEntry shape entry = objSet shape (fst entry) (snd entry)"
  by (simp add: shapeEntry_def split: option.split json.split list.split)

lemma esize_shapeEntry: "esize (shapeEntry shape entry) \<le> esize shape + jsize (snd entry)"
  using esize_objSet [of shape "fst entry" "snd entry"] shapeEntry_cases [of shape entry]
  by auto

lemma esize_foldl_shapeEntry: "esize (foldl shapeEntry shape obj) \<le> esize shape + esize obj"
proof (induction obj arbitrary: shape)
  case Nil
  show ?case by simp
next
  case (Cons entry obj)
  have "esize (foldl shapeEntry (shapeEntry shape entry) obj)
          \<le> esize (shapeEntry shape entry) + esize obj"
    by (rule Cons.IH)
  also have "\<dots> \<le> esize shape + jsize (snd entry) + esize obj"
    using esize_shapeEntry [of shape entry] by simp
  finally show ?case by simp
qed

lemma esize_foldl_objects:
  "esize (foldl (\<lambda>shape obj. foldl shapeEntry shape obj) shape objects) + length objects
     \<le> esize shape + osize objects"
proof (induction objects arbitrary: shape)
  case Nil
  show ?case by simp
next
  case (Cons obj objects)
  have "esize (foldl (\<lambda>shape obj. foldl shapeEntry shape obj) (foldl shapeEntry shape obj) objects)
          + length objects \<le> esize (foldl shapeEntry shape obj) + osize objects"
    by (rule Cons.IH)
  also have "\<dots> \<le> esize shape + esize obj + osize objects"
    using esize_foldl_shapeEntry [of shape obj] by simp
  finally show ?case by simp
qed

lemma esize_mergedShape: "esize (mergedShape (obj # objects)) < osize (obj # objects)"
  using esize_foldl_objects [of "[]" "obj # objects"]
  by (simp add: mergedShape_def del: foldl_Cons)

termination generateType
  apply (relation "inv_image (less_than <*lex*> less_than)
    (\<lambda>x. case x of
       Inl (Inl (Inl (lc, v, h, st))) \<Rightarrow> (jsize v, 0::nat)
     | Inl (Inl (Inr (lc, arr, h, st))) \<Rightarrow> (lsize arr, 2)
     | Inl (Inr (Inl (lc, arr, h, ps, st))) \<Rightarrow> (lsize arr, 0)
     | Inl (Inr (Inr (Inl (lc, obj, h, pt, st)))) \<Rightarrow> (esize obj, 3)
     | Inl (Inr (Inr (Inr (lc, obj, pt, st)))) \<Rightarrow> (esize obj, 1)
     | Inr (Inl (Inl (lc, n, obj, pt, st))) \<Rightarrow> (esize obj, 2)
     | Inr (Inl (Inr (lc, obj, pt, ps, st))) \<Rightarrow> (esize obj, 1)
     | Inr (Inr (Inl (lc, objects, st))) \<Rightarrow> (osize objects, 1)
     | Inr (Inr (Inr (Inl (lc, objects, pt, oc, st)))) \<Rightarrow> (osize objects, 0)
     | Inr (Inr (Inr (Inr (lc, obj, pt, oc, st)))) \<Rightarrow> (esize obj, 0))")
  subgoal by (intro wf_inv_image wf_lex_prod wf_less_than)
  subgoal by simp
  subgoal by simp
  subgoal by simp
  subgoal for lc arr suggestedName st b x y firstObj others
    using osize_objectsOf [of arr] by simp
  subgoal for lc arr suggestedName st b x y firstObj others
    using osize_objectsOf [of arr] by (simp, arith)
  subgoal for lc arr suggestedName st b x y firstObj others
    using osize_objectsOf [of arr] esize_mergedShape [of firstObj others] by simp
  using jsize_pos by (auto simp: less_Suc_eq_le)

definition generateFromJson ::
  "(string \<Rightarrow> string \<Rightarrow> int) \<Rightarrow> json \<Rightarrow> string \<Rightarrow> gen_state \<Rightarrow> string result" where
  \<comment> \<open>\<open>st\<close> is what earlier calls have left in the fields of the instance; the four
      \<^verbatim>\<open>clear()\<close> calls replace it by the empty registry\<close>
  "generateFromJson lc json rootName st =
     (case generateType lc json (HStr rootName) emptyState of
        Inl e \<Rightarrow> Inl e
      | Inr (rootType, st1) \<Rightarrow>
          (let output = concat (map (\<lambda>(name, content). content @ [CHR 0x0A, CHR 0x0A])
                                    (rev (interfaces st1)));
               output = (if rootName \<notin> fst ` set (interfaces st1)
                         then output @ ''export type '' @ rootName @ '' = '' @ rootType @ '';''
                         else output)
           in Inr (trim output, st1)))"

definition codeUnitCompare :: "string \<Rightarrow> string \<Rightarrow> int" where
  \<comment> \<open>the comparison by code units; on two words of lower-case ASCII letters it has the sign
      of \<^verbatim>\<open>localeCompare\<close>\<close>
  "codeUnitCompare a b = (if a < b then - 1 else if a = b then 0 else 1)"

declare generateType.simps [simp del] generateArrayType.simps [simp del]
  primitiveTypesOf.simps [simp del] generateObjectType.simps [simp del]
  objectProperties.simps [simp del] mergeInterfaces.simps [simp del]
  mergeProperties.simps [simp del] mergeObjectsWithUnionTypes.simps [simp del]
  propertyTypesOf.simps [simp del] entryTypesOf.simps [simp del]

section \<open>Properties\<close>

subsection \<open>Name cleaning\<close>

text \<open>C8: the name cleaning maps \<^verbatim>\<open>items\<close> to \<^verbatim>\<open>Item\<close>, \<^verbatim>\<open>categories\<close> to \<^verbatim>\<open>Category\<close>,
  \<^verbatim>\<open>boxes\<close> to \<^verbatim>\<open>Box\<close>, \<^verbatim>\<open>addresses\<close> to \<^verbatim>\<open>Address\<close> and \<^verbatim>\<open>dishes\<close> to \<^verbatim>\<open>Dish\<close>. This holds
  for the cleaning of a property name (where \<^verbatim>\<open>items\<close> is answered by the table of synonyms)
  and for the cleaning of a name hint.\<close>

theorem singularization_table:
  "generateCleanChildName ''items'' = HStr ''Item''
   \<and> generateCleanChildName ''categories'' = HStr ''Category''
   \<and> generateCleanChildName ''boxes'' = HStr ''Box''
   \<and> generateCleanChildName ''addresses'' = HStr ''Address''
   \<and> generateCleanChildName ''dishes'' = HStr ''Dish''
   \<and> generateCleanInterfaceName (HStr ''items'') False = Inr ''Item''
   \<and> generateCleanInterfaceName (HStr ''categories'') False = Inr ''Category''
   \<and> generateCleanInterfaceName (HStr ''boxes'') False = Inr ''Box''
   \<and> generateCleanInterfaceName (HStr ''addresses'') False = Inr ''Address''
   \<and> generateCleanInterfaceName (HStr ''dishes'') False = Inr ''Dish''"
  by code_simp

subsection \<open>Independence of earlier calls\<close>

text \<open>C6: two calls of \<^verbatim>\<open>generateFromJson\<close> with the same value and the same root name give the
  same text, whatever the earlier calls have left in the four fields: the result (text and
  registry, or the error) does not depend on the state the call starts in.\<close>

theorem generateFromJson_deterministic:
  "generateFromJson lc json rootName st = generateFromJson lc json rootName st'"
  by (simp add: generateFromJson_def)

subsection \<open>The shallow signature\<close>

text \<open>C10: in the signature of an object that is not merged, a nested object counts as
  \<^verbatim>\<open>object\<close> and a nested array by its first element only. So two objects with the key
  \<^verbatim>\<open>x\<close> have one signature whatever the objects under \<^verbatim>\<open>x\<close> are, and for the input
  \<^verbatim>\<open>{"a": {"x": {"p": 1}}, "b": {"x": {"q": "s"}}}\<close> the object under \<^verbatim>\<open>b\<close> takes the name
  \<^verbatim>\<open>A\<close> of the object under \<^verbatim>\<open>a\<close>; no definition with a field \<^verbatim>\<open>q\<close> is made.\<close>

theorem shallow_signature_reuses_name:
  "structureType None key (JObj obj) = ''object''
   \<and> structureType None key (JArr (first # rest)) = getSimpleType first @ ''[]''
   \<and> generateInterfaceStructure [(key, JObj obj)] None = generateInterfaceStructure [(key, JObj obj')] None
   \<and> map_sum id fst
         (generateFromJson lc
            (JObj [(''a'', JObj [(''x'', JObj [(''p'', JNum 1)])]),
                   (''b'', JObj [(''x'', JObj [(''q'', JStr ''s'')])])])
            ''RootInterface'' st)
       = Inr (join [CHR 0x0A]
           [''export interface RootInterface {'', ''  a: A;'', ''  b: A;'', ''}'', [],
            ''export interface A {'', ''  x: X;'', ''}'', [],
            ''export interface X {'', ''  p: number;'', ''}''])"
proof -
  have 1: "structureType None key (JObj obj) = ''object''" for key obj
    by (simp add: structureType_def)
  have 2: "structureType None key (JArr (first # rest)) = getSimpleType first @ ''[]''"
    by (simp add: structureType_def)
  have 3: "generateInterfaceStructure [(key, JObj obj)] None
             = generateInterfaceStructure [(key, JObj obj')] None"
    by (simp add: generateInterfaceStructure_def 1)
  have 4: "map_sum id fst
         (generateFromJson lc
            (JObj [(''a'', JObj [(''x'', JObj [(''p'', JNum 1)])]),
                   (''b'', JObj [(''x'', JObj [(''q'', JStr ''s'')])])])
            ''RootInterface'' st)
       = Inr (join [CHR 0x0A]
           [''export interface RootInterface {'', ''  a: A;'', ''  b: A;'', ''}'', [],
            ''export interface A {'', ''  x: X;'', ''}'', [],
            ''export interface X {'', ''  p: number;'', ''}''])"
    unfolding generateFromJson_def by code_simp
  show ?thesis using 1 2 3 4 by blast
qed

subsection \<open>Keys that \<^verbatim>\<open>Object.prototype\<close> answers for\<close>

text \<open>C9 fails on the code. \<^verbatim>\<open>mergeObjectsWithUnionTypes\<close> keeps its type sets in an object
  literal: for the key \<^verbatim>\<open>constructor\<close> the test \<^verbatim>\<open>!propertyTypes[key]\<close> finds the inherited
  function, no set is made, and \<^verbatim>\<open>propertyTypes[key].add\<close> throws. In the same way
  \<^verbatim>\<open>generateCleanChildName\<close> returns the inherited function for that key, and the first
  method that treats it as a string throws. Both inputs are well-formed JSON.\<close>

theorem prototype_key_raises:
  "generateFromJson lc (JArr [JObj [(''constructor'', JNum 1)], JObj [(''a'', JNum 2)]])
      ''RootInterface'' st = Inl TypeError
   \<and> generateFromJson lc (JObj [(''constructor'', JObj [(''a'', JNum 1)])])
      ''RootInterface'' st = Inl TypeError"
  unfolding generateFromJson_def by code_simp

subsection \<open>Signatures after a merge in place\<close>

text \<open>C5 fails on the code. For
  \<^verbatim>\<open>{"a": {"x": 1}, "a1": {"x": "s"}, "b": {"x": 1}, "b1": {"x": "s"}}\<close> the object under
  \<^verbatim>\<open>a1\<close> is merged into \<^verbatim>\<open>A\<close>, whose signature becomes \<^verbatim>\<open>x:number | string\<close>; the object
  under \<^verbatim>\<open>b\<close> then matches nothing and becomes \<^verbatim>\<open>B\<close>, and the object under \<^verbatim>\<open>b1\<close> is merged
  into \<^verbatim>\<open>B\<close>. The run ends with two definitions of one signature and one body.\<close>

theorem merge_in_place_duplicates_signature:
  "map_sum id (\<lambda>r. (interfaceStructures (snd r), interfaces (snd r)))
     (generateFromJson codeUnitCompare
        (JObj [(''a'', JObj [(''x'', JNum 1)]), (''a1'', JObj [(''x'', JStr ''s'')]),
               (''b'', JObj [(''x'', JNum 1)]), (''b1'', JObj [(''x'', JStr ''s'')])])
        ''RootInterface'' st)
   = Inr ([(''A'', ''x:number | string''), (''B'', ''x:number | string''),
           (''RootInterface'', ''a1:object;a:object;b1:object;b:object'')],
          [(''A'', interfaceText ''A'' [''  x: number | string;'']),
           (''B'', interfaceText ''B'' [''  x: number | string;'']),
           (''RootInterface'',
            interfaceText ''RootInterface'' [''  a: A;'', ''  a1: A;'', ''  b: B;'', ''  b1: B;''])])"
  unfolding generateFromJson_def by code_simp

subsection \<open>The merge of the objects of an array\<close>

text \<open>C2 as stated fails: for the array of \<^verbatim>\<open>{a: 1}\<close> and \<^verbatim>\<open>{a: "x", b: 2}\<close> the field
  \<^verbatim>\<open>b\<close> of the merged definition is optional, but its type is not \<^verbatim>\<open>number\<close>.\<close>

theorem union_merge_b_is_not_number:
  "map_sum id (\<lambda>r. map_of (parseInterfaceContent (fst r)) ''b'')
     (generateFromJson codeUnitCompare
        (JArr [JObj [(''a'', JNum 1)], JObj [(''a'', JStr ''x''), (''b'', JNum 2)]])
        ''RootInterface'' emptyState)
   \<noteq> Inr (Some (''number'', True))"
  unfolding generateFromJson_def by code_simp

text \<open>C2, amended: the merged definition \<^verbatim>\<open>Item\<close> has the required field \<^verbatim>\<open>a\<close> of type
  \<^verbatim>\<open>number | string\<close> and the optional field \<^verbatim>\<open>b\<close> of type \<^verbatim>\<open>number | undefined\<close>: an
  optional field gets \<^verbatim>\<open>undefined\<close> added to its type.\<close>

theorem union_merge:
  "map_sum id fst
     (generateFromJson lc
        (JArr [JObj [(''a'', JNum 1)], JObj [(''a'', JStr ''x''), (''b'', JNum 2)]])
        ''RootInterface'' st)
   = Inr (join [CHR 0x0A]
       [''export interface Item {'', ''  a: number | string;'', ''  b?: number | undefined;'', ''}'',
        [], ''export type RootInterface = Item[];''])"
  unfolding generateFromJson_def by code_simp

subsection \<open>One name for one shape\<close>


subsection \<open>Unique names\<close>


subsection \<open>Null beside a real type\<close>

lemma set_foldl_setAdd: "set (foldl setAdd acc xs) = set acc \<union> set xs"
  by (induction xs arbitrary: acc) (auto simp: setAdd_def)

lemma set_insertBy: "set (insertBy cmp x ys) = insert x (set ys)"
  by (induction ys) auto

lemma set_foldl_insertBy:
  "set (foldl (\<lambda>sorted x. insertBy cmp x sorted) acc xs) = set acc \<union> set xs"
  by (induction xs arbitrary: acc) (auto simp: set_insertBy)

lemma set_sortBy: "set (sortBy cmp xs) = set xs"
  by (simp add: sortBy_def set_foldl_insertBy)

lemma length_filter_remove1: "length (filter P xs) \<le> Suc (length (filter P (remove1 x xs)))"
  by (induction xs) auto

lemma array_type_is_real: "endsWith t ''[]'' \<Longrightarrow> t \<noteq> ''null'' \<and> t \<noteq> ''undefined''"
proof -
  have "\<not> endsWith ''null'' ''[]''" "\<not> endsWith ''undefined'' ''[]''"
    by (simp_all add: endsWith_def)
  then show "endsWith t ''[]'' \<Longrightarrow> t \<noteq> ''null'' \<and> t \<noteq> ''undefined''"
    by blast
qed

lemma dropUnknownArray_null: "''null'' \<in> set xs \<Longrightarrow> ''null'' \<in> set (dropUnknownArray xs)"
  by (simp add: dropUnknownArray_def Let_def)

lemma dropUnknownArray_real:
  assumes "list_ex (\<lambda>t. t \<noteq> ''null'' \<and> t \<noteq> ''undefined'') xs"
  shows "list_ex (\<lambda>t. t \<noteq> ''null'' \<and> t \<noteq> ''undefined'') (dropUnknownArray xs)"
proof (cases "dropUnknownArray xs = xs")
  case True
  then show ?thesis using assms by simp
next
  case False
  then have more: "1 < length (filter (\<lambda>t. endsWith t ''[]'') xs)"
    and eq: "dropUnknownArray xs = remove1 ''unknown[]'' xs"
    by (simp_all add: dropUnknownArray_def Let_def split: if_splits)
  have "0 < length (filter (\<lambda>t. endsWith t ''[]'') (remove1 ''unknown[]'' xs))"
    using more length_filter_remove1 [of "\<lambda>t. endsWith t ''[]''" xs "''unknown[]''"] by arith
  then have "filter (\<lambda>t. endsWith t ''[]'') (remove1 ''unknown[]'' xs) \<noteq> []"
    by simp
  then obtain y where "y \<in> set (remove1 ''unknown[]'' xs)" "endsWith y ''[]''"
    unfolding filter_empty_conv by blast
  then show ?thesis
    using array_type_is_real [of y] unfolding eq list_ex_iff by blast
qed

lemma set_dropUnknownArray: "set (dropUnknownArray xs) \<subseteq> set xs"
  using set_remove1_subset [of "''unknown[]''" xs] by (simp add: dropUnknownArray_def Let_def)

lemma join_single: "length xs = 1 \<Longrightarrow> hd xs = join sep xs"
  by (cases xs) simp_all

lemma typedProperty_null:
  assumes "''null'' \<in> set types"
    and "list_ex (\<lambda>t. t \<noteq> ''null'' \<and> t \<noteq> ''undefined'' \<and> t \<noteq> ''missing'') types"
  shows "snd (typedProperty types) = False
    \<and> (\<exists>members. fst (typedProperty types) = join '' | '' members \<and> ''null'' \<in> set members
          \<and> set members \<subseteq> set types - {''missing''})"
proof -
  define actual0 where "actual0 = filter (\<lambda>t. t \<noteq> ''missing'' \<and> t \<noteq> ''undefined'') types"
  define actual where "actual = dropUnknownArray actual0"
  have "''null'' \<in> set actual0"
    using assms(1) by (simp add: actual0_def)
  then have null: "''null'' \<in> set actual"
    unfolding actual_def by (rule dropUnknownArray_null)
  have "list_ex (\<lambda>t. t \<noteq> ''null'' \<and> t \<noteq> ''undefined'') actual0"
    using assms(2) unfolding actual0_def list_ex_iff set_filter by blast
  then have real: "list_ex (\<lambda>t. t \<noteq> ''null'' \<and> t \<noteq> ''undefined'') actual"
    unfolding actual_def by (rule dropUnknownArray_real)
  have "set actual0 \<subseteq> set types - {''missing''}"
    unfolding actual0_def set_filter by blast
  then have sub: "set actual \<subseteq> set types - {''missing''}"
    using set_dropUnknownArray [of actual0] unfolding actual_def by blast
  have ne: "actual \<noteq> []" using null by (cases actual) simp_all
  have "typedProperty types =
      (if actual = [] then ''unknown'' else if length actual = 1 then hd actual
       else join '' | '' actual, False)"
    using null real by (simp add: typedProperty_def Let_def actual_def actual0_def)
  then have "typedProperty types = (join '' | '' actual, False)"
    using ne join_single [of actual "'' | ''"] by (cases "length actual = 1") simp_all
  then show ?thesis using null sub by (intro conjI exI [of _ actual]) simp_all
qed

lemma mergedProperty_null:
  assumes "''null'' \<in> set (parseUnionType (fst existing) @ parseUnionType newType)"
    and "list_ex (\<lambda>t. t \<noteq> ''null'' \<and> t \<noteq> ''undefined'')
           (parseUnionType (fst existing) @ parseUnionType newType)"
  shows "snd (mergedProperty lc existing newType isOptional) = False
    \<and> (\<exists>members. fst (mergedProperty lc existing newType isOptional) = join '' | '' members
          \<and> ''null'' \<in> set members
          \<and> set members \<subseteq> set (parseUnionType (fst existing) @ parseUnionType newType))"
proof -
  define both where "both = parseUnionType (fst existing) @ parseUnionType newType"
  define all0 where "all0 = foldl setAdd [] both"
  define sorted where "sorted = sortBy (compareTypes lc) (dropUnknownArray all0)"
  have set0: "set all0 = set both"
    by (simp add: all0_def set_foldl_setAdd)
  have "''null'' \<in> set all0" using assms(1) set0 by (simp add: both_def)
  then have null: "''null'' \<in> set sorted"
    by (simp add: sorted_def set_sortBy dropUnknownArray_null)
  have "list_ex (\<lambda>t. t \<noteq> ''null'' \<and> t \<noteq> ''undefined'') all0"
    using assms(2) set0 unfolding list_ex_iff both_def by blast
  then have "list_ex (\<lambda>t. t \<noteq> ''null'' \<and> t \<noteq> ''undefined'') (dropUnknownArray all0)"
    by (rule dropUnknownArray_real)
  then have real: "list_ex (\<lambda>t. t \<noteq> ''null'' \<and> t \<noteq> ''undefined'') sorted"
    by (simp add: list_ex_iff sorted_def set_sortBy)
  have sub: "set sorted \<subseteq> set both"
    using set_dropUnknownArray [of all0] set0 by (simp add: sorted_def set_sortBy)
  have "mergedProperty lc existing newType isOptional = (join '' | '' sorted, False)"
    using null real
    by (simp add: mergedProperty_def Let_def sorted_def all0_def both_def del: foldl_append)
  then show ?thesis using null sub unfolding both_def
    by (intro conjI exI [of _ sorted]) simp_all
qed

text \<open>C3 fails on the code. Where the properties of a definition are rendered from their type
  sets (lines 213-245), \<^verbatim>\<open>null\<close> beside a real type does force the property required, for
  every type set (lemma \<open>typedProperty_null\<close>). Where a shape is merged into a definition in
  place, lines 376-407 do not look at the type set: they join it into one string and read it
  back with \<^verbatim>\<open>parseUnionType\<close>, and the property is forced required only when \<^verbatim>\<open>null\<close> is
  among the parts read back (lemma \<open>mergedProperty_null\<close>). The pattern \<^verbatim>\<open>/^\(|\)$/g\<close> of
  \<^verbatim>\<open>parseUnionType\<close> removes the parenthesis that opens the type of an array of a union
  although the one that closes it is not at the end. The depth of brackets is then off by
  one, \<^verbatim>\<open>null\<close> is not split off, and the test for \<^verbatim>\<open>null\<close> fails.

  In \<^verbatim>\<open>{"a": [{"x": 1}, {}], "a1": [{"x": [1, "s"]}, {"x": null}, {}]}\<close> the elements under
  \<^verbatim>\<open>a1\<close> have, for \<^verbatim>\<open>x\<close>, the type set of \<^verbatim>\<open>(number | string)[]\<close>, \<^verbatim>\<open>null\<close> and the marker
  \<^verbatim>\<open>missing\<close>: \<^verbatim>\<open>null\<close> beside a real type. They are merged into the definition \<^verbatim>\<open>A\<close> made
  for the elements under \<^verbatim>\<open>a\<close>, and the field comes out optional, with a type that is no
  type.\<close>

theorem null_lost_in_union_of_array_type:
  "map_sum id fst
     (mergeObjectsWithUnionTypes lc
        [[(''x'', JArr [JNum 1, JStr ''s''])], [(''x'', JNull)], []] st)
     = Inr [(''x'', [''(number | string)[]'', ''null'', ''missing''])]
   \<and> typedProperty [''(number | string)[]'', ''null'', ''missing'']
     = (''(number | string)[] | null'', False)
   \<and> newTypedProperty [''(number | string)[]'', ''null'', ''missing'']
     = (''(number | string)[] | null'', True)
   \<and> parseUnionType ''(number | string)[] | null'' = [''number'', ''string)[] | null'']
   \<and> mergedProperty codeUnitCompare (''number | undefined'', True)
        ''(number | string)[] | null'' True
     = (''number | string)[] | null | undefined'', True)
   \<and> map_sum id fst
        (generateFromJson codeUnitCompare
           (JObj [(''a'', JArr [JObj [(''x'', JNum 1)], JObj []]),
                  (''a1'', JArr [JObj [(''x'', JArr [JNum 1, JStr ''s''])],
                                 JObj [(''x'', JNull)], JObj []])])
           ''RootInterface'' st')
     = Inr (join [CHR 0x0A]
         [''export interface RootInterface {'', ''  a: A[];'', ''  a1: A[];'', ''}'', [],
          ''export interface A {'', ''  x?: number | string)[] | null | undefined;'', ''}''])"
proof -
  have types: "map_sum id fst
     (mergeObjectsWithUnionTypes lc
        [[(''x'', JArr [JNum 1, JStr ''s''])], [(''x'', JNull)], []] st)
     = Inr [(''x'', [''(number | string)[]'', ''null'', ''missing''])]"
    by code_simp
  have direct: "typedProperty [''(number | string)[]'', ''null'', ''missing'']
     = (''(number | string)[] | null'', False)"
    by code_simp
  have joined: "newTypedProperty [''(number | string)[]'', ''null'', ''missing'']
     = (''(number | string)[] | null'', True)"
    by code_simp
  have parsed: "parseUnionType ''(number | string)[] | null'' = [''number'', ''string)[] | null'']"
    by code_simp
  have merged: "mergedProperty codeUnitCompare (''number | undefined'', True)
        ''(number | string)[] | null'' True
     = (''number | string)[] | null | undefined'', True)"
    by code_simp
  have run: "map_sum id fst
        (generateFromJson codeUnitCompare
           (JObj [(''a'', JArr [JObj [(''x'', JNum 1)], JObj []]),
                  (''a1'', JArr [JObj [(''x'', JArr [JNum 1, JStr ''s''])],
                                 JObj [(''x'', JNull)], JObj []])])
           ''RootInterface'' st')
     = Inr (join [CHR 0x0A]
         [''export interface RootInterface {'', ''  a: A[];'', ''  a1: A[];'', ''}'', [],
          ''export interface A {'', ''  x?: number | string)[] | null | undefined;'', ''}''])"
    unfolding generateFromJson_def by code_simp
  show ?thesis
    using types direct joined parsed merged run by (intro conjI) assumption+
qed

subsection \<open>What a registration returns\<close>

lemma map_fst_replaceValue: "map fst (replaceValue m k v) = map fst m"
  by (induction m) auto

lemma keys_mapSet: "fst ` set (mapSet m k v) = insert k (fst ` set m)"
proof (cases "k \<in> fst ` set m")
  case True
  have "fst ` set (replaceValue m k v) = fst ` set m"
    using map_fst_replaceValue [of m k v] by (metis set_map)
  then show ?thesis using True by (auto simp: mapSet_def)
next
  case False
  then show ?thesis by (auto simp: mapSet_def)
qed

lemma find_key: "map_option fst (find P m) = Some n \<Longrightarrow> n \<in> fst ` set m"
  by (induction m) (auto split: if_splits)

lemma truthyName_Some: "truthyName r = Some n \<Longrightarrow> r = Some n \<and> n \<noteq> []"
  by (auto simp: truthyName_def split: option.splits list.splits)

lemma findExistingInterface_key:
  "findExistingInterface structure st = Some n \<Longrightarrow> n \<in> fst ` set (interfaceStructures st)"
  unfolding findExistingInterface_def by (rule find_key)

lemma findSimilarInterface_key:
  "findSimilarInterface structure name st = Some n \<Longrightarrow> n \<in> fst ` set (interfaceStructures st)"
  unfolding findSimilarInterface_def Let_def by (rule find_key)

lemma mergeInterfaces_result:
  assumes "mergeInterfaces lc existingName obj pt st = Inr (n, st')"
  shows "n = existingName"
    and "st' = st \<or> existingName \<in> fst ` set (interfaceStructures st')"
  using assms
  by (auto simp: mergeInterfaces.simps updateInterface_def keys_mapSet
           split: option.splits if_splits sum.splits prod.splits)

lemma uniqueFrom_form: "\<exists>k. uniqueFrom used baseName counter = baseName @ digitsOf k"
proof (induction used baseName counter rule: uniqueFrom.induct)
  case (1 used baseName counter)
  show ?case
  proof (cases "baseName @ digitsOf counter \<in> set used")
    case True
    then show ?thesis using 1 by (simp add: uniqueFrom.simps [of used baseName counter])
  next
    case False
    then show ?thesis by (auto simp: uniqueFrom.simps [of used baseName counter])
  qed
qed

lemma ensureUniqueName_nonempty: "baseName \<noteq> [] \<Longrightarrow> ensureUniqueName baseName st \<noteq> []"
  using uniqueFrom_form [of "usedNames st" baseName 2]
  by (auto simp: ensureUniqueName_def)

lemma interfaceNameOf_nonempty: "interfaceNameOf h = Inr name \<Longrightarrow> name \<noteq> []"
proof -
  have "generateCleanInterfaceName (HStr ''Interface'') True = Inr ''Item''"
    by code_simp
  then show "interfaceNameOf h = Inr name \<Longrightarrow> name \<noteq> []"
    by (auto simp: interfaceNameOf_def split: hint.splits list.splits)
qed

lemma generateObjectType_registered:
  assumes "generateObjectType lc obj h pt st = Inr (n, st')"
  shows "n \<in> fst ` set (interfaceStructures st')" and "n \<noteq> []"
proof -
  let ?s = "generateInterfaceStructure obj pt"
  show "n \<in> fst ` set (interfaceStructures st')"
  proof (cases "truthyName (findExistingInterface ?s st)")
    case (Some e)
    then show ?thesis
      using assms truthyName_Some [OF Some] findExistingInterface_key [of ?s st e]
      by (simp add: generateObjectType.simps)
  next
    case None
    then obtain name where name: "interfaceNameOf h = Inr name"
      using assms by (auto simp: generateObjectType.simps split: sum.splits)
    show ?thesis
    proof (cases "truthyName (findSimilarInterface ?s name st)")
      case (Some e)
      then have "mergeInterfaces lc e obj pt st = Inr (n, st')"
        using assms None name by (simp add: generateObjectType.simps)
      then show ?thesis
        using mergeInterfaces_result [of lc e obj pt st n st']
          truthyName_Some [OF Some] findSimilarInterface_key [of ?s name st e]
        by auto
    next
      case none: None
      then show ?thesis
        using assms None name
        by (auto simp: generateObjectType.simps registerInterface_def keys_mapSet
                 split: sum.splits prod.splits)
    qed
  qed
  show "n \<noteq> []"
  proof (cases "truthyName (findExistingInterface ?s st)")
    case (Some e)
    then show ?thesis
      using assms truthyName_Some [OF Some] by (simp add: generateObjectType.simps)
  next
    case None
    then obtain name where name: "interfaceNameOf h = Inr name"
      using assms by (auto simp: generateObjectType.simps split: sum.splits)
    show ?thesis
    proof (cases "truthyName (findSimilarInterface ?s name st)")
      case (Some e)
      then have "mergeInterfaces lc e obj pt st = Inr (n, st')"
        using assms None name by (simp add: generateObjectType.simps)
      then show ?thesis
        using mergeInterfaces_result(1) [of lc e obj pt st n st'] truthyName_Some [OF Some]
        by auto
    next
      case none: None
      then show ?thesis
        using assms None name ensureUniqueName_nonempty [OF interfaceNameOf_nonempty [OF name], of st]
        by (auto simp: generateObjectType.simps split: sum.splits prod.splits)
    qed
  qed
qed

subsection \<open>Keys and lookups of an object used as a dictionary\<close>

lemma keys_replaceValue: "fst ` set (replaceValue m k v) = fst ` set m"
  using map_fst_replaceValue [of m k v] by (metis set_map)

lemma keys_insertIndexKey: "fst ` set (insertIndexKey m k v) = insert k (fst ` set m)"
proof (induction m)
  case Nil
  show ?case by simp
next
  case (Cons entry m)
  obtain k0 v0 where entry: "entry = (k0, v0)" by (cases entry)
  show ?case
    using Cons.IH unfolding entry
    by (cases "isArrayIndex k0 \<and> numberOf k0 < numberOf k") (simp_all add: insert_commute)
qed

lemma keys_objSet: "k \<noteq> ''__proto__'' \<Longrightarrow> fst ` set (objSet m k v) = insert k (fst ` set m)"
  by (auto simp: objSet_def keys_replaceValue keys_insertIndexKey)

lemma map_of_replaceValue:
  "k \<in> fst ` set m \<Longrightarrow> map_of (replaceValue m k v) k' = (if k' = k then Some v else map_of m k')"
proof (induction m)
  case Nil
  then show ?case by simp
next
  case (Cons entry m)
  obtain k0 v0 where entry: "entry = (k0, v0)" by (cases entry)
  show ?case
  proof (cases "k0 = k")
    case True
    then show ?thesis unfolding entry by simp
  next
    case False
    then have "k \<in> fst ` set m" using Cons.prems unfolding entry by auto
    from Cons.IH [OF this] show ?thesis using False unfolding entry by (auto split: if_splits)
  qed
qed

lemma map_of_insertIndexKey:
  "map_of (insertIndexKey m k v) k' = (if k' = k then Some v else map_of m k')"
proof (induction m)
  case Nil
  show ?case by simp
next
  case (Cons entry m)
  obtain k0 v0 where entry: "entry = (k0, v0)" by (cases entry)
  show ?case
  proof (cases "isArrayIndex k0 \<and> numberOf k0 < numberOf k")
    case True
    then have "k0 \<noteq> k" by auto
    then show ?thesis using Cons.IH True unfolding entry by (auto split: if_splits)
  next
    case False
    then show ?thesis unfolding entry by auto
  qed
qed

lemma map_of_snoc:
  "k \<notin> fst ` set m \<Longrightarrow> map_of (m @ [(k, v)]) k' = (if k' = k then Some v else map_of m k')"
proof (induction m)
  case Nil
  show ?case by simp
next
  case (Cons entry m)
  obtain k0 v0 where entry: "entry = (k0, v0)" by (cases entry)
  have "k \<notin> fst ` set m" and "k0 \<noteq> k" using Cons.prems unfolding entry by auto
  from Cons.IH [OF this(1)] this(2) show ?case unfolding entry
    by (auto simp del: map_of_append split: if_splits)
qed

lemma map_of_objSet:
  "k \<noteq> ''__proto__'' \<Longrightarrow> map_of (objSet m k v) k' = (if k' = k then Some v else map_of m k')"
  by (simp add: objSet_def map_of_replaceValue map_of_insertIndexKey map_of_snoc
           del: map_of_append)


lemma proto_is_protoName: "''__proto__'' \<in> set protoNames"
  by (simp add: protoNames_def)

lemma key_of_lookup: "map_of m k = Some v \<Longrightarrow> k \<in> fst ` set m"
  by (metis domI dom_map_of_conv_image_fst)

lemma lookup_of_key: "k \<in> fst ` set m \<Longrightarrow> \<exists>v. map_of m k = Some v"
  by (metis domD dom_map_of_conv_image_fst)

lemma set_setAdd: "set (setAdd s x) = insert x (set s)"
  by (auto simp: setAdd_def)

subsection \<open>Properties of the registry that every method keeps\<close>

text \<open>The registry is changed in two places only: where a definition is registered (lines
  262-270) and where one is rewritten by a merge in place (lines 428-432), each time under a
  name that is not empty. A property of the registry that both changes keep is kept by every
  method.\<close>

lemma registry_property_preserved:
  assumes reg: "\<And>n c s st. P st \<Longrightarrow> n \<noteq> [] \<Longrightarrow> P (registerInterface n c s st)"
    and upd: "\<And>n c s st. P st \<Longrightarrow> n \<noteq> [] \<Longrightarrow> P (updateInterface n c s st)"
  shows
  "\<forall>x st'. P st \<longrightarrow> generateType lc v h st = Inr (x, st') \<longrightarrow> P st'"
  "\<forall>x st'. P st \<longrightarrow> generateArrayType lc arr h st = Inr (x, st') \<longrightarrow> P st'"
  "\<forall>x st'. P st \<longrightarrow> primitiveTypesOf lc arr h ps st = Inr (x, st') \<longrightarrow> P st'"
  "\<forall>x st'. P st \<longrightarrow> generateObjectType lc obj h pt st = Inr (x, st') \<longrightarrow> P st'"
  "\<forall>x st'. P st \<longrightarrow> objectProperties lc obj pt st = Inr (x, st') \<longrightarrow> P st'"
  "\<forall>x st'. P st \<longrightarrow> n \<noteq> [] \<longrightarrow> mergeInterfaces lc n obj pt st = Inr (x, st')
      \<longrightarrow> P st'"
  "\<forall>x st'. P st \<longrightarrow> mergeProperties lc obj pt mp st = Inr (x, st') \<longrightarrow> P st'"
  "\<forall>x st'. P st \<longrightarrow> mergeObjectsWithUnionTypes lc objs st = Inr (x, st')
      \<longrightarrow> P st'"
  "\<forall>x st'. P st \<longrightarrow> propertyTypesOf lc objs pts oc st = Inr (x, st') \<longrightarrow> P st'"
  "\<forall>x st'. P st \<longrightarrow> entryTypesOf lc obj pts oc st = Inr (x, st') \<longrightarrow> P st'"
proof (induction lc v h st and lc arr h st and lc arr h ps st and lc obj h pt st
    and lc obj pt st and lc n obj pt st and lc obj pt mp st and lc objs st
    and lc objs pts oc st and lc obj pts oc st
    rule: generateType_generateArrayType_primitiveTypesOf_generateObjectType_objectProperties_mergeInterfaces_mergeProperties_mergeObjectsWithUnionTypes_propertyTypesOf_entryTypesOf.induct)
  case (1 lc suggestedName st)
  show ?case by (simp add: generateType.simps)
next
  case (2 lc b suggestedName st)
  show ?case by (simp add: generateType.simps)
next
  case (3 lc n suggestedName st)
  show ?case by (simp add: generateType.simps)
next
  case (4 lc s suggestedName st)
  show ?case by (simp add: generateType.simps)
next
  case (5 lc arr suggestedName st)
  then show ?case by (simp add: generateType.simps)
next
  case (6 lc obj suggestedName st)
  then show ?case by (simp add: generateType.simps)
next
  case (7 lc arr suggestedName st)
  show ?case
  proof (intro allI impI)
    fix x st'
    assume inv: "P st"
      and run: "generateArrayType lc arr suggestedName st = Inr (x, st')"
    from run obtain types st1 where
      p: "primitiveTypesOf lc arr suggestedName [] st = Inr (types, st1)"
      by (auto simp: generateArrayType.simps split: sum.splits)
    note inv1 = "7.IH"(1) [rule_format, OF inv p]
    show "P st'"
    proof (cases "objectsOf arr")
      case Nil
      with run p have "st' = st1" by (simp add: generateArrayType.simps)
      with inv1 show ?thesis by simp
    next
      case (Cons firstObj others)
      from run p Cons obtain itemName where
        item: "generateCleanInterfaceName suggestedName False = Inr itemName"
        by (auto simp: generateArrayType.simps split: sum.splits)
      show ?thesis
      proof (cases "sameStructures firstObj others")
        case True
        from run p Cons item True obtain name where
          o: "generateObjectType lc firstObj (HStr itemName) None st1 = Inr (name, st')"
          by (auto simp: generateArrayType.simps split: sum.splits)
        from "7.IH"(2) [OF p refl Cons item True, rule_format, OF inv1 o] show ?thesis .
      next
        case False
        from run p Cons item False obtain propertyTypes st2 where
          m: "mergeObjectsWithUnionTypes lc (objectsOf arr) st1 = Inr (propertyTypes, st2)"
          by (auto simp: generateArrayType.simps split: sum.splits)
        note inv2 = "7.IH"(3) [OF p refl Cons item False, rule_format, OF inv1 m]
        from run p Cons item False m obtain name where
          o: "generateObjectType lc (mergedShape (objectsOf arr)) (HStr itemName)
                (Some propertyTypes) st2 = Inr (name, st')"
          by (auto simp: generateArrayType.simps split: sum.splits)
        from "7.IH"(4) [OF p refl Cons item False m refl, rule_format, OF inv2 o]
        show ?thesis .
      qed
    qed
  qed
next
  case (8 lc suggestedName primitiveTypes st)
  show ?case by (simp add: primitiveTypesOf.simps)
next
  case (9 lc items suggestedName primitiveTypes st)
  then show ?case by (simp add: primitiveTypesOf.simps)
next
  case (10 lc obj items suggestedName primitiveTypes st)
  then show ?case by (simp add: primitiveTypesOf.simps)
next
  case (11 lc item items suggestedName primitiveTypes st)
  show ?case
  proof (intro allI impI)
    fix x st'
    assume inv: "P st"
      and run: "primitiveTypesOf lc (JArr item # items) suggestedName primitiveTypes st
                  = Inr (x, st')"
    from run obtain t st1 where
      g: "generateArrayType lc item suggestedName st = Inr (t, st1)"
      and r: "primitiveTypesOf lc items suggestedName (setAdd primitiveTypes t) st1 = Inr (x, st')"
      by (auto simp: primitiveTypesOf.simps split: sum.splits)
    note inv1 = "11.IH"(1) [rule_format, OF inv g]
    from "11.IH"(2) [OF g refl, rule_format, OF inv1 r] show "P st'" .
  qed
next
  case (12 lc b items suggestedName primitiveTypes st)
  then show ?case by (simp add: primitiveTypesOf.simps del: typeof.simps)
next
  case (13 lc n items suggestedName primitiveTypes st)
  then show ?case by (simp add: primitiveTypesOf.simps del: typeof.simps)
next
  case (14 lc s items suggestedName primitiveTypes st)
  then show ?case by (simp add: primitiveTypesOf.simps del: typeof.simps)
next
  case (15 lc obj suggestedName propertyTypes st)
  show ?case
  proof (intro allI impI)
    fix x st'
    assume inv: "P st"
      and run: "generateObjectType lc obj suggestedName propertyTypes st = Inr (x, st')"
    show "P st'"
    proof (cases "truthyName (findExistingInterface
                    (generateInterfaceStructure obj propertyTypes) st)")
      case (Some existingName)
      with run have "st' = st" by (simp add: generateObjectType.simps)
      with inv show ?thesis by simp
    next
      case None
      with run obtain name where name: "interfaceNameOf suggestedName = Inr name"
        by (auto simp: generateObjectType.simps split: sum.splits)
      show ?thesis
      proof (cases "truthyName (findSimilarInterface
                      (generateInterfaceStructure obj propertyTypes) name st)")
        case (Some similarInterface)
        with run None name
        have m: "mergeInterfaces lc similarInterface obj propertyTypes st = Inr (x, st')"
          by (simp add: generateObjectType.simps)
        have "similarInterface \<noteq> []" using truthyName_Some [OF Some] by simp
        from "15.IH"(2) [OF None name Some, rule_format, OF inv this m] show ?thesis .
      next
        case none: None
        with run None name obtain lines st1 where
          op: "objectProperties lc obj propertyTypes st = Inr (lines, st1)"
          and st': "st' = registerInterface (ensureUniqueName name st)
                      (interfaceText (ensureUniqueName name st) lines)
                      (generateInterfaceStructure obj propertyTypes) st1"
          by (auto simp: generateObjectType.simps split: sum.splits)
        have "ensureUniqueName name st \<noteq> []"
          by (rule ensureUniqueName_nonempty [OF interfaceNameOf_nonempty [OF name]])
        with "15.IH"(1) [OF None name none, rule_format, OF inv op]
        show ?thesis unfolding st' by (rule reg)
      qed
    qed
  qed
next
  case (16 lc propertyTypes st)
  show ?case by (simp add: objectProperties.simps)
next
  case (17 lc key "value" entries propertyTypes st)
  show ?case
  proof (intro allI impI)
    fix x st'
    assume inv: "P st"
      and run: "objectProperties lc ((key, value) # entries) propertyTypes st = Inr (x, st')"
    show "P st'"
    proof (cases "ownTypes propertyTypes key")
      case (Some types)
      with run obtain lines where
        r: "objectProperties lc entries propertyTypes st = Inr (lines, st')"
        by (auto simp: objectProperties.simps split: sum.splits)
      from "17.IH"(3) [OF Some, rule_format, OF inv r] show ?thesis .
    next
      case None
      with run obtain t st1 where
        g: "generateType lc value (generateCleanChildName key) st = Inr (t, st1)"
        by (auto simp: objectProperties.simps split: sum.splits)
      with run None obtain lines where
        r: "objectProperties lc entries propertyTypes st1 = Inr (lines, st')"
        by (auto simp: objectProperties.simps split: sum.splits)
      note inv1 = "17.IH"(1) [OF None, rule_format, OF inv g]
      from "17.IH"(2) [OF None g refl, rule_format, OF inv1 r] show ?thesis .
    qed
  qed
next
  case (18 lc existingName newObj newPropertyTypes st)
  show ?case
  proof (intro allI impI)
    fix x st'
    assume inv: "P st"
      and nonempty: "existingName \<noteq> []"
      and run: "mergeInterfaces lc existingName newObj newPropertyTypes st = Inr (x, st')"
    show "P st'"
    proof (cases "map_of (interfaces st) existingName")
      case None
      with run have "st' = st" by (simp add: mergeInterfaces.simps)
      with inv show ?thesis by simp
    next
      case (Some existingContent)
      show ?thesis
      proof (cases "existingContent = []")
        case True
        with run Some have "st' = st" by (simp add: mergeInterfaces.simps)
        with inv show ?thesis by simp
      next
        case False
        with run Some obtain mergedProps st1 where
          m: "mergeProperties lc newObj newPropertyTypes (parseInterfaceContent existingContent) st
                = Inr (mergedProps, st1)"
          and st': "st' = updateInterface existingName
                      (interfaceText existingName
                         (map (\<lambda>(key, type, optional). propertyLine key optional type) mergedProps))
                      (generateInterfaceStructureFromProps mergedProps) st1"
          by (auto simp: mergeInterfaces.simps split: sum.splits)
        from "18.IH" [OF Some False, rule_format, OF inv m] nonempty
        show ?thesis unfolding st' by (rule upd)
      qed
    qed
  qed
next
  case (19 lc newPropertyTypes mergedProps st)
  show ?case by (simp add: mergeProperties.simps)
next
  case (20 lc key "value" entries newPropertyTypes mergedProps st)
  show ?case
  proof (intro allI impI)
    fix x st'
    assume inv: "P st"
      and run: "mergeProperties lc ((key, value) # entries) newPropertyTypes mergedProps st
                  = Inr (x, st')"
    from run obtain new st1 where
      n: "(case ownTypes newPropertyTypes key of
            None \<Rightarrow>
              (case generateType lc value (generateCleanChildName key) st of
                 Inl e \<Rightarrow> Inl e
               | Inr (newType, st1) \<Rightarrow> Inr ((newType, value = JNull), st1))
          | Some types \<Rightarrow> Inr (newTypedProperty types, st)) = Inr (new, st1)"
      by (auto simp: mergeProperties.simps split: sum.splits)
    have inv1: "P st1"
    proof (cases "ownTypes newPropertyTypes key")
      case (Some types)
      with n have "st1 = st" by simp
      with inv show ?thesis by simp
    next
      case None
      with n obtain t where
        g: "generateType lc value (generateCleanChildName key) st = Inr (t, st1)"
        by (auto split: sum.splits)
      from "20.IH"(1) [OF None, rule_format, OF inv g] show ?thesis .
    qed
    show "P st'"
    proof (cases "map_of mergedProps key")
      case (Some existing)
      with run n
      have r: "mergeProperties lc entries newPropertyTypes
                 (objSet mergedProps key (mergedProperty lc existing (fst new) (snd new))) st1
               = Inr (x, st')"
        by (simp add: mergeProperties.simps)
      from "20.IH"(3) [OF n refl Some, rule_format, OF inv1 r] show ?thesis .
    next
      case None
      with run n have notin: "key \<notin> set protoNames"
        by (auto simp: mergeProperties.simps split: if_splits)
      with run n None
      have r: "mergeProperties lc entries newPropertyTypes (objSet mergedProps key new) st1
               = Inr (x, st')"
        by (simp add: mergeProperties.simps)
      from "20.IH"(2) [OF n refl None notin, rule_format, OF inv1 r] show ?thesis .
    qed
  qed
next
  case (21 lc objects st)
  show ?case
  proof (intro allI impI)
    fix x st'
    assume inv: "P st"
      and run: "mergeObjectsWithUnionTypes lc objects st = Inr (x, st')"
    from run obtain r where p: "propertyTypesOf lc objects [] [] st = Inr (r, st')"
      by (auto simp: mergeObjectsWithUnionTypes.simps split: sum.splits)
    from "21.IH" [rule_format, OF inv p] show "P st'" .
  qed
next
  case (22 lc propertyTypes propertyOccurrences st)
  show ?case by (simp add: propertyTypesOf.simps)
next
  case (23 lc obj objects propertyTypes propertyOccurrences st)
  show ?case
  proof (intro allI impI)
    fix x st'
    assume inv: "P st"
      and run: "propertyTypesOf lc (obj # objects) propertyTypes propertyOccurrences st
                  = Inr (x, st')"
    from run obtain propertyTypes1 propertyOccurrences1 st1 where
      e: "entryTypesOf lc obj propertyTypes propertyOccurrences st
            = Inr ((propertyTypes1, propertyOccurrences1), st1)"
      and r: "propertyTypesOf lc objects (markMissing (map fst obj) propertyTypes1)
                propertyOccurrences1 st1 = Inr (x, st')"
      by (auto simp: propertyTypesOf.simps split: sum.splits)
    note inv1 = "23.IH"(1) [rule_format, OF inv e]
    from "23.IH"(2) [OF e refl refl, rule_format, OF inv1 r] show "P st'" .
  qed
next
  case (24 lc propertyTypes propertyOccurrences st)
  show ?case by (simp add: entryTypesOf.simps)
next
  case (25 lc key "value" entries propertyTypes propertyOccurrences st)
  show ?case
  proof (intro allI impI)
    fix x st'
    assume inv: "P st"
      and run: "entryTypesOf lc ((key, value) # entries) propertyTypes propertyOccurrences st
                  = Inr (x, st')"
    from run obtain valueType st1 where
      v: "(case value of
             JNull \<Rightarrow> Inr (''null'', st)
           | JArr arr \<Rightarrow> generateArrayType lc arr (generateCleanChildName key) st
           | JObj obj \<Rightarrow> generateObjectType lc obj (generateCleanChildName key) None st
           | _ \<Rightarrow> Inr (typeof value, st)) = Inr (valueType, st1)"
      by (auto simp: entryTypesOf.simps split: sum.splits)
    with run have notin: "key \<notin> set protoNames"
      by (auto simp: entryTypesOf.simps split: if_splits)
    with run v
    have r: "entryTypesOf lc entries
               (objSet propertyTypes key
                  (setAdd (case map_of propertyTypes key of None \<Rightarrow> [] | Some types \<Rightarrow> types)
                          valueType))
               (objSet propertyOccurrences key
                  (Suc (case map_of propertyOccurrences key of None \<Rightarrow> 0 | Some k \<Rightarrow> k)))
               st1 = Inr (x, st')"
      by (simp add: entryTypesOf.simps)
    have inv1: "P st1"
    proof (cases "value")
      case (JArr arr)
      with v have "generateArrayType lc arr (generateCleanChildName key) st = Inr (valueType, st1)"
        by simp
      from "25.IH"(1) [OF JArr, rule_format, OF inv this] show ?thesis .
    next
      case (JObj obj)
      with v
      have "generateObjectType lc obj (generateCleanChildName key) None st = Inr (valueType, st1)"
        by simp
      from "25.IH"(2) [OF JObj, rule_format, OF inv this] show ?thesis .
    next
      case JNull
      with v inv show ?thesis by simp
    next
      case (JBool b)
      with v inv show ?thesis by simp
    next
      case (JNum n)
      with v inv show ?thesis by simp
    next
      case (JStr s)
      with v inv show ?thesis by simp
    qed
    from "25.IH"(3) [OF v refl notin, rule_format, OF inv1 r] show "P st'" .
  qed
qed

lemma names_nonempty_preserved:
  assumes "[] \<notin> fst ` set (interfaceStructures st)"
    and "generateType lc v h st = Inr (t, st')"
  shows "[] \<notin> fst ` set (interfaceStructures st')"
proof -
  have "\<forall>x st'. [] \<notin> fst ` set (interfaceStructures st) \<longrightarrow> generateType lc v h st = Inr (x, st')
          \<longrightarrow> [] \<notin> fst ` set (interfaceStructures st')"
    by (rule registry_property_preserved(1)
              [where P = "\<lambda>st. [] \<notin> fst ` set (interfaceStructures st)"])
       (auto simp: registerInterface_def updateInterface_def keys_mapSet)
  with assms show ?thesis by simp
qed


definition registryInv :: "gen_state \<Rightarrow> bool" where
  \<comment> \<open>the names of \<^verbatim>\<open>interfaceStructures\<close> are names of \<^verbatim>\<open>interfaces\<close>; the empty registry has
      the property and every method keeps it\<close>
  "registryInv st = (fst ` set (interfaceStructures st) \<subseteq> fst ` set (interfaces st))"

lemma registryInv_empty: "registryInv emptyState"
  by (simp add: registryInv_def emptyState_def)

lemma registryInv_preserved:
  assumes "registryInv st"
  shows "primitiveTypesOf lc arr h ps st = Inr (types, st') \<Longrightarrow> registryInv st'"
    and "mergeObjectsWithUnionTypes lc objs st = Inr (pt, st') \<Longrightarrow> registryInv st'"
    and "generateObjectType lc obj h opt st = Inr (name, st') \<Longrightarrow> registryInv st'"
proof -
  have reg: "registryInv (registerInterface n c s st)" if "registryInv st" for n c s st
    using that by (auto simp: registryInv_def registerInterface_def keys_mapSet)
  have upd: "registryInv (updateInterface n c s st)" if "registryInv st" for n c s st
    using that by (auto simp: registryInv_def updateInterface_def keys_mapSet)
  have 1: "\<forall>x st'. registryInv st \<longrightarrow> primitiveTypesOf lc arr h ps st = Inr (x, st')
             \<longrightarrow> registryInv st'"
    by (rule registry_property_preserved(3) [where P = registryInv]) (simp_all add: reg upd)
  have 2: "\<forall>x st'. registryInv st \<longrightarrow> mergeObjectsWithUnionTypes lc objs st = Inr (x, st')
             \<longrightarrow> registryInv st'"
    by (rule registry_property_preserved(8) [where P = registryInv]) (simp_all add: reg upd)
  have 3: "\<forall>x st'. registryInv st \<longrightarrow> generateObjectType lc obj h opt st = Inr (x, st')
             \<longrightarrow> registryInv st'"
    by (rule registry_property_preserved(4) [where P = registryInv]) (simp_all add: reg upd)
  show "primitiveTypesOf lc arr h ps st = Inr (types, st') \<Longrightarrow> registryInv st'"
    using 1 assms by blast
  show "mergeObjectsWithUnionTypes lc objs st = Inr (pt, st') \<Longrightarrow> registryInv st'"
    using 2 assms by blast
  show "generateObjectType lc obj h opt st = Inr (name, st') \<Longrightarrow> registryInv st'"
    using 3 assms by blast
qed

lemma generateObjectType_defined:
  assumes "registryInv st" and "generateObjectType lc obj h pt st = Inr (n, st')"
  shows "n \<in> fst ` set (interfaces st')"
  using registryInv_preserved(3) [OF assms] generateObjectType_registered(1) [OF assms(2)]
  unfolding registryInv_def by auto

subsection \<open>The keys of the merged shape and of the merged type sets\<close>

lemma keys_shapeEntry:
  assumes "fst entry \<notin> set protoNames"
  shows "fst ` set (shapeEntry shape entry) = insert (fst entry) (fst ` set shape)"
proof -
  have ne: "fst entry \<noteq> ''__proto__''"
    using assms proto_is_protoName by auto
  show ?thesis
  proof (cases "map_of shape (fst entry)")
    case None
    then show ?thesis using assms by (simp add: shapeEntry_def keys_objSet [OF ne])
  next
    case (Some v)
    then have "fst entry \<in> fst ` set shape" by (rule key_of_lookup)
    then have "insert (fst entry) (fst ` set shape) = fst ` set shape" by auto
    then show ?thesis
      using Some
      by (simp add: shapeEntry_def keys_objSet [OF ne] split: json.splits list.splits)
  qed
qed

lemma keys_foldl_shapeEntry:
  "\<forall>entry\<in>set obj. fst entry \<notin> set protoNames
   \<Longrightarrow> fst ` set (foldl shapeEntry shape obj) = fst ` set shape \<union> fst ` set obj"
proof (induction obj arbitrary: shape)
  case Nil
  show ?case by simp
next
  case (Cons entry obj)
  have "fst ` set (foldl shapeEntry (shapeEntry shape entry) obj)
          = fst ` set (shapeEntry shape entry) \<union> fst ` set obj"
    using Cons.prems by (intro Cons.IH) simp
  then show ?case using Cons.prems by (simp add: keys_shapeEntry)
qed

lemma keys_foldl_objects:
  "\<forall>obj\<in>set objects. \<forall>entry\<in>set obj. fst entry \<notin> set protoNames
   \<Longrightarrow> fst ` set (foldl (\<lambda>shape obj. foldl shapeEntry shape obj) shape objects)
         = fst ` set shape \<union> (\<Union>obj\<in>set objects. fst ` set obj)"
proof (induction objects arbitrary: shape)
  case Nil
  show ?case by simp
next
  case (Cons obj objects)
  have "fst ` set (foldl (\<lambda>shape obj. foldl shapeEntry shape obj) (foldl shapeEntry shape obj) objects)
          = fst ` set (foldl shapeEntry shape obj) \<union> (\<Union>obj\<in>set objects. fst ` set obj)"
    using Cons.prems by (intro Cons.IH) simp
  moreover have "fst ` set (foldl shapeEntry shape obj) = fst ` set shape \<union> fst ` set obj"
    using Cons.prems by (intro keys_foldl_shapeEntry) simp
  ultimately show ?case by (simp add: Un_assoc)
qed

lemma keys_mergedShape:
  "\<forall>obj\<in>set objects. \<forall>entry\<in>set obj. fst entry \<notin> set protoNames
   \<Longrightarrow> fst ` set (mergedShape objects) = (\<Union>obj\<in>set objects. fst ` set obj)"
  unfolding mergedShape_def by (simp add: keys_foldl_objects)

lemma entryTypesOf_keys:
  assumes "entryTypesOf lc obj pt oc st = Inr ((pt', oc'), st')"
  shows "(\<forall>entry\<in>set obj. fst entry \<notin> set protoNames)
       \<and> fst ` set pt' = fst ` set pt \<union> fst ` set obj"
  using assms
proof (induction obj arbitrary: pt oc st)
  case Nil
  then show ?case by (simp add: entryTypesOf.simps)
next
  case (Cons entry obj)
  obtain key v where entry: "entry = (key, v)" by (cases entry)
  from Cons.prems have notin: "key \<notin> set protoNames"
    unfolding entry by (auto simp: entryTypesOf.simps split: sum.splits if_splits)
  then have ne: "key \<noteq> ''__proto__''" using proto_is_protoName by auto
  from Cons.prems notin obtain valueType st1 where
    rest: "entryTypesOf lc obj
             (objSet pt key (setAdd (case map_of pt key of None \<Rightarrow> [] | Some types \<Rightarrow> types) valueType))
             (objSet oc key (Suc (case map_of oc key of None \<Rightarrow> 0 | Some k \<Rightarrow> k)))
             st1 = Inr ((pt', oc'), st')"
    unfolding entry by (auto simp: entryTypesOf.simps split: sum.splits)
  from Cons.IH [OF rest] show ?case
    using notin by (auto simp: entry keys_objSet [OF ne])
qed

lemma keys_markMissing: "fst ` set (markMissing seenKeys pt) = fst ` set pt"
  by (force simp: markMissing_def)

lemma propertyTypesOf_keys:
  assumes "propertyTypesOf lc objects pt oc st = Inr ((pt', oc'), st')"
  shows "(\<forall>obj\<in>set objects. \<forall>entry\<in>set obj. fst entry \<notin> set protoNames)
       \<and> fst ` set pt' = fst ` set pt \<union> (\<Union>obj\<in>set objects. fst ` set obj)"
  using assms
proof (induction objects arbitrary: pt oc st)
  case Nil
  then show ?case by (simp add: propertyTypesOf.simps)
next
  case (Cons obj objects)
  from Cons.prems obtain pt1 oc1 st1 where
    entries: "entryTypesOf lc obj pt oc st = Inr ((pt1, oc1), st1)"
    and rest: "propertyTypesOf lc objects (markMissing (map fst obj) pt1) oc1 st1
                 = Inr ((pt', oc'), st')"
    by (auto simp: propertyTypesOf.simps split: sum.splits)
  from entryTypesOf_keys [OF entries] Cons.IH [OF rest] show ?case
    by (simp add: keys_markMissing Un_assoc)
qed

lemma keys_finishPropertyTypes: "fst ` set (finishPropertyTypes n oc pt) = fst ` set pt"
  by (force simp: finishPropertyTypes_def)

lemma mergeObjectsWithUnionTypes_keys:
  assumes "mergeObjectsWithUnionTypes lc objects st = Inr (pt, st')"
  shows "\<forall>obj\<in>set objects. \<forall>entry\<in>set obj. fst entry \<notin> set protoNames"
    and "fst ` set pt = (\<Union>obj\<in>set objects. fst ` set obj)"
proof -
  from assms obtain pt0 oc0 where
    run: "propertyTypesOf lc objects [] [] st = Inr ((pt0, oc0), st')"
    and pt: "pt = finishPropertyTypes (length objects) oc0 pt0"
    by (auto simp: mergeObjectsWithUnionTypes.simps split: sum.splits)
  from propertyTypesOf_keys [OF run]
  show "\<forall>obj\<in>set objects. \<forall>entry\<in>set obj. fst entry \<notin> set protoNames"
    and "fst ` set pt = (\<Union>obj\<in>set objects. fst ` set obj)"
    by (simp_all add: pt keys_finishPropertyTypes)
qed

subsection \<open>The definition made for a merged shape\<close>

definition typeSet :: "property_types \<Rightarrow> string \<Rightarrow> string list" where
  \<comment> \<open>the type labels gathered for a key, in insertion order\<close>
  "typeSet propertyTypes key = (case map_of propertyTypes key of None \<Rightarrow> [] | Some types \<Rightarrow> types)"

definition typedLines :: "property_types \<Rightarrow> (string \<times> json) list \<Rightarrow> string list" where
  \<comment> \<open>the property lines of lines 203-258 when every key has its set of type labels\<close>
  "typedLines propertyTypes shape =
     map (\<lambda>(key, value). propertyLine key (snd (typedProperty (typeSet propertyTypes key)))
                                         (fst (typedProperty (typeSet propertyTypes key))))
         shape"

definition countOf :: "(string \<times> nat) list \<Rightarrow> string \<Rightarrow> nat" where
  \<comment> \<open>\<^verbatim>\<open>propertyOccurrences[key]\<close>, and 0 for a key that has not been counted\<close>
  "countOf propertyOccurrences key =
     (case map_of propertyOccurrences key of None \<Rightarrow> 0 | Some k \<Rightarrow> k)"

definition primitiveValue :: "json \<Rightarrow> bool" where
  \<comment> \<open>a value that is neither an array nor an object\<close>
  "primitiveValue v = (case v of JArr arr \<Rightarrow> False | JObj obj \<Rightarrow> False | _ \<Rightarrow> True)"

definition primitiveLabel :: "json \<Rightarrow> string" where
  \<comment> \<open>lines 529-545 for a value that is neither an array nor an object\<close>
  "primitiveLabel v = (case v of JNull \<Rightarrow> ''null'' | _ \<Rightarrow> typeof v)"

lemma objectProperties_typed:
  "\<forall>key\<in>fst ` set obj. key \<in> fst ` set pt
   \<Longrightarrow> objectProperties lc obj (Some pt) st = Inr (typedLines pt obj, st)"
proof (induction obj)
  case Nil
  show ?case by (simp add: objectProperties.simps typedLines_def)
next
  case (Cons entry obj)
  obtain key v where entry: "entry = (key, v)" by (cases entry)
  have "key \<in> fst ` set pt" using Cons.prems unfolding entry by simp
  from lookup_of_key [OF this] obtain types where types: "map_of pt key = Some types" ..
  have "objectProperties lc obj (Some pt) st = Inr (typedLines pt obj, st)"
    using Cons.prems by (intro Cons.IH) simp
  then show ?case
    using types unfolding entry
    by (simp add: objectProperties.simps ownTypes_def typedLines_def typeSet_def)
qed

lemma map_of_map_values:
  "map_of (map (\<lambda>(key, x). (key, f key x)) m) k = map_option (f k) (map_of m k)"
  by (induction m) auto

lemma dropUnknownArray_keeps:
  "x \<noteq> ''unknown[]'' \<Longrightarrow> x \<in> set xs \<Longrightarrow> x \<in> set (dropUnknownArray xs)"
  by (simp add: dropUnknownArray_def Let_def)

lemma entryTypesOf_count:
  assumes "entryTypesOf lc obj pt oc st = Inr ((pt', oc'), st')" and "distinct (map fst obj)"
  shows "countOf oc' k = countOf oc k + (if k \<in> fst ` set obj then 1 else 0)"
  using assms
proof (induction obj arbitrary: pt oc st)
  case Nil
  then show ?case by (simp add: entryTypesOf.simps)
next
  case (Cons entry obj)
  obtain key v where entry: "entry = (key, v)" by (cases entry)
  from Cons.prems(1) have notin: "key \<notin> set protoNames"
    unfolding entry by (auto simp: entryTypesOf.simps split: sum.splits if_splits)
  then have ne: "key \<noteq> ''__proto__''" using proto_is_protoName by auto
  from Cons.prems(1) notin obtain pt1 st1 where
    rest: "entryTypesOf lc obj pt1 (objSet oc key (Suc (countOf oc key))) st1
             = Inr ((pt', oc'), st')"
    unfolding entry countOf_def by (auto simp: entryTypesOf.simps split: sum.splits)
  have fresh: "key \<notin> fst ` set obj" and "distinct (map fst obj)"
    using Cons.prems(2) unfolding entry by auto
  from Cons.IH [OF rest this(2)]
  have "countOf oc' k = countOf (objSet oc key (Suc (countOf oc key))) k
                          + (if k \<in> fst ` set obj then 1 else 0)" .
  moreover have "countOf (objSet oc key (Suc (countOf oc key))) k
                   = (if k = key then Suc (countOf oc key) else countOf oc k)"
    by (simp add: countOf_def map_of_objSet [OF ne])
  ultimately show ?case using fresh unfolding entry by auto
qed

lemma propertyTypesOf_count:
  assumes "propertyTypesOf lc objects pt oc st = Inr ((pt', oc'), st')"
    and "\<forall>obj\<in>set objects. distinct (map fst obj)"
  shows "countOf oc' k = countOf oc k + length (filter (\<lambda>obj. k \<in> fst ` set obj) objects)"
  using assms
proof (induction objects arbitrary: pt oc st)
  case Nil
  then show ?case by (simp add: propertyTypesOf.simps)
next
  case (Cons obj objects)
  from Cons.prems(1) obtain pt1 oc1 st1 where
    entries: "entryTypesOf lc obj pt oc st = Inr ((pt1, oc1), st1)"
    and rest: "propertyTypesOf lc objects (markMissing (map fst obj) pt1) oc1 st1
                 = Inr ((pt', oc'), st')"
    by (auto simp: propertyTypesOf.simps split: sum.splits)
  have "distinct (map fst obj)" and later: "\<forall>obj\<in>set objects. distinct (map fst obj)"
    using Cons.prems(2) by simp_all
  from entryTypesOf_count [OF entries this(1), of k] Cons.IH [OF rest later]
  show ?case by simp
qed

lemma missing_marked:
  assumes run: "mergeObjectsWithUnionTypes lc objects st = Inr (pt, st')"
    and distinct: "\<forall>obj\<in>set objects. distinct (map fst obj)"
    and obj: "obj \<in> set objects" and lacks: "key \<notin> fst ` set obj"
    and key: "key \<in> fst ` set pt"
  shows "''missing'' \<in> set (typeSet pt key)"
proof -
  from run obtain pt0 oc0 where
    types: "propertyTypesOf lc objects [] [] st = Inr ((pt0, oc0), st')"
    and pt: "pt = finishPropertyTypes (length objects) oc0 pt0"
    by (auto simp: mergeObjectsWithUnionTypes.simps split: sum.splits)
  have "countOf oc0 key = length (filter (\<lambda>obj. key \<in> fst ` set obj) objects)"
    using propertyTypesOf_count [OF types distinct, of key] by (simp add: countOf_def)
  also have "\<dots> < length objects"
    using obj lacks by (intro length_filter_less [of obj]) simp_all
  finally have fewer: "countOf oc0 key < length objects" .
  have "key \<in> fst ` set pt0" using key by (simp add: pt keys_finishPropertyTypes)
  from lookup_of_key [OF this] obtain types0 where types0: "map_of pt0 key = Some types0" ..
  have "map_of pt key = Some (dropUnknownArray (setAdd types0 ''missing''))"
    using fewer types0 unfolding pt finishPropertyTypes_def map_of_map_values
    by (simp add: countOf_def)
  then show ?thesis
    by (simp add: typeSet_def dropUnknownArray_keeps set_setAdd)
qed

lemma typeSet_objSet:
  "key \<noteq> ''__proto__''
   \<Longrightarrow> typeSet (objSet pt key types) k = (if k = key then types else typeSet pt k)"
  by (simp add: typeSet_def map_of_objSet)

lemma typeSet_markMissing: "set (typeSet pt k) \<subseteq> set (typeSet (markMissing seenKeys pt) k)"
  unfolding markMissing_def typeSet_def map_of_map_values
  by (cases "map_of pt k") (auto simp: set_setAdd)

lemma entryTypesOf_grows:
  assumes "entryTypesOf lc obj pt oc st = Inr ((pt', oc'), st')"
  shows "set (typeSet pt k) \<subseteq> set (typeSet pt' k)"
  using assms
proof (induction obj arbitrary: pt oc st)
  case Nil
  then show ?case by (simp add: entryTypesOf.simps)
next
  case (Cons entry obj)
  obtain key v where entry: "entry = (key, v)" by (cases entry)
  from Cons.prems have notin: "key \<notin> set protoNames"
    unfolding entry by (auto simp: entryTypesOf.simps split: sum.splits if_splits)
  then have ne: "key \<noteq> ''__proto__''" using proto_is_protoName by auto
  from Cons.prems notin obtain valueType oc1 st1 where
    rest: "entryTypesOf lc obj (objSet pt key (setAdd (typeSet pt key) valueType)) oc1 st1
             = Inr ((pt', oc'), st')"
    unfolding entry typeSet_def by (auto simp: entryTypesOf.simps split: sum.splits)
  have "set (typeSet pt k) \<subseteq> set (typeSet (objSet pt key (setAdd (typeSet pt key) valueType)) k)"
    by (auto simp: typeSet_objSet [OF ne] set_setAdd)
  with Cons.IH [OF rest] show ?case by blast
qed

lemma entryTypesOf_labels:
  assumes "entryTypesOf lc obj pt oc st = Inr ((pt', oc'), st')"
    and "(key, v) \<in> set obj" and "primitiveValue v"
  shows "primitiveLabel v \<in> set (typeSet pt' key)"
  using assms
proof (induction obj arbitrary: pt oc st)
  case Nil
  then show ?case by simp
next
  case (Cons entry obj)
  obtain key0 v0 where entry: "entry = (key0, v0)" by (cases entry)
  from Cons.prems(1) have notin: "key0 \<notin> set protoNames"
    unfolding entry by (auto simp: entryTypesOf.simps split: sum.splits if_splits)
  then have ne: "key0 \<noteq> ''__proto__''" using proto_is_protoName by auto
  from Cons.prems(1) notin obtain valueType oc1 st1 where
    label: "(case v0 of
               JArr arr \<Rightarrow> generateArrayType lc arr (generateCleanChildName key0) st
             | JObj obj \<Rightarrow> generateObjectType lc obj (generateCleanChildName key0) None st
             | JNull \<Rightarrow> Inr (''null'', st)
             | _ \<Rightarrow> Inr (typeof v0, st)) = Inr (valueType, st1)"
    and rest: "entryTypesOf lc obj (objSet pt key0 (setAdd (typeSet pt key0) valueType)) oc1 st1
             = Inr ((pt', oc'), st')"
    unfolding entry typeSet_def by (auto simp: entryTypesOf.simps split: sum.splits)
  show ?case
  proof (cases "(key, v) = (key0, v0)")
    case True
    then have "valueType = primitiveLabel v"
      using label Cons.prems(3)
      by (cases v0) (simp_all add: primitiveLabel_def primitiveValue_def)
    then have "primitiveLabel v
                 \<in> set (typeSet (objSet pt key0 (setAdd (typeSet pt key0) valueType)) key)"
      using True by (simp add: typeSet_objSet [OF ne] set_setAdd)
    with entryTypesOf_grows [OF rest, of key] show ?thesis by blast
  next
    case False
    then have "(key, v) \<in> set obj" using Cons.prems(2) unfolding entry by auto
    from Cons.IH [OF rest this Cons.prems(3)] show ?thesis .
  qed
qed

lemma propertyTypesOf_grows:
  assumes "propertyTypesOf lc objects pt oc st = Inr ((pt', oc'), st')"
  shows "set (typeSet pt k) \<subseteq> set (typeSet pt' k)"
  using assms
proof (induction objects arbitrary: pt oc st)
  case Nil
  then show ?case by (simp add: propertyTypesOf.simps)
next
  case (Cons obj objects)
  from Cons.prems obtain pt1 oc1 st1 where
    entries: "entryTypesOf lc obj pt oc st = Inr ((pt1, oc1), st1)"
    and rest: "propertyTypesOf lc objects (markMissing (map fst obj) pt1) oc1 st1
                 = Inr ((pt', oc'), st')"
    by (auto simp: propertyTypesOf.simps split: sum.splits)
  from entryTypesOf_grows [OF entries, of k] typeSet_markMissing [of pt1 k "map fst obj"]
    Cons.IH [OF rest]
  show ?case by blast
qed

lemma propertyTypesOf_labels:
  assumes "propertyTypesOf lc objects pt oc st = Inr ((pt', oc'), st')"
    and "obj \<in> set objects" and "(key, v) \<in> set obj" and "primitiveValue v"
  shows "primitiveLabel v \<in> set (typeSet pt' key)"
  using assms
proof (induction objects arbitrary: pt oc st)
  case Nil
  then show ?case by simp
next
  case (Cons obj0 objects)
  from Cons.prems(1) obtain pt1 oc1 st1 where
    entries: "entryTypesOf lc obj0 pt oc st = Inr ((pt1, oc1), st1)"
    and rest: "propertyTypesOf lc objects (markMissing (map fst obj0) pt1) oc1 st1
                 = Inr ((pt', oc'), st')"
    by (auto simp: propertyTypesOf.simps split: sum.splits)
  show ?case
  proof (cases "obj = obj0")
    case True
    from entryTypesOf_labels [OF entries _ Cons.prems(4), of key] Cons.prems(3) True
    have "primitiveLabel v \<in> set (typeSet pt1 key)" by simp
    with typeSet_markMissing [of pt1 key "map fst obj0"] propertyTypesOf_grows [OF rest, of key]
    show ?thesis by blast
  next
    case False
    then have "obj \<in> set objects" using Cons.prems(2) by simp
    from Cons.IH [OF rest this Cons.prems(3,4)] show ?thesis .
  qed
qed

lemma primitiveLabel_known: "primitiveValue v \<Longrightarrow> primitiveLabel v \<noteq> ''unknown[]''"
  by (cases v) (simp_all add: primitiveLabel_def primitiveValue_def)

lemma typeSet_finishPropertyTypes:
  assumes "x \<in> set (typeSet pt k)" and "x \<noteq> ''unknown[]''"
  shows "x \<in> set (typeSet (finishPropertyTypes n oc pt) k)"
proof (cases "map_of pt k")
  case None
  then show ?thesis using assms(1) by (simp add: typeSet_def)
next
  case (Some types)
  then have "x \<in> set types" using assms(1) by (simp add: typeSet_def)
  then show ?thesis
    using Some assms(2) unfolding finishPropertyTypes_def typeSet_def map_of_map_values
    by (simp add: dropUnknownArray_keeps set_setAdd)
qed

lemma labels_gathered:
  assumes "mergeObjectsWithUnionTypes lc objects st = Inr (pt, st')"
    and "obj \<in> set objects" and "(key, v) \<in> set obj" and "primitiveValue v"
  shows "primitiveLabel v \<in> set (typeSet pt key)"
proof -
  from assms(1) obtain pt0 oc0 where
    types: "propertyTypesOf lc objects [] [] st = Inr ((pt0, oc0), st')"
    and pt: "pt = finishPropertyTypes (length objects) oc0 pt0"
    by (auto simp: mergeObjectsWithUnionTypes.simps split: sum.splits)
  from propertyTypesOf_labels [OF types assms(2,3,4)]
  show ?thesis unfolding pt
    by (rule typeSet_finishPropertyTypes) (rule primitiveLabel_known [OF assms(4)])
qed

subsection \<open>The name a new definition gets\<close>

lemma uniqueFrom_least:
  "\<exists>k. counter \<le> k \<and> uniqueFrom used baseName counter = baseName @ digitsOf k
       \<and> baseName @ digitsOf k \<notin> set used
       \<and> (\<forall>j. counter \<le> j \<and> j < k \<longrightarrow> baseName @ digitsOf j \<in> set used)"
proof (induction used baseName counter rule: uniqueFrom.induct)
  case (1 used baseName counter)
  show ?case
  proof (cases "baseName @ digitsOf counter \<in> set used")
    case True
    from 1 [OF True] obtain k where k: "Suc counter \<le> k"
      "uniqueFrom used baseName (Suc counter) = baseName @ digitsOf k"
      "baseName @ digitsOf k \<notin> set used"
      "\<forall>j. Suc counter \<le> j \<and> j < k \<longrightarrow> baseName @ digitsOf j \<in> set used"
      by auto
    have "\<forall>j. counter \<le> j \<and> j < k \<longrightarrow> baseName @ digitsOf j \<in> set used"
    proof (intro allI impI)
      fix j assume j: "counter \<le> j \<and> j < k"
      show "baseName @ digitsOf j \<in> set used"
      proof (cases "j = counter")
        case True
        then show ?thesis using \<open>baseName @ digitsOf counter \<in> set used\<close> by simp
      next
        case False
        then have "Suc counter \<le> j \<and> j < k" using j by arith
        then show ?thesis using k(4) by simp
      qed
    qed
    moreover have "uniqueFrom used baseName counter = baseName @ digitsOf k"
      using True k(2) by (simp add: uniqueFrom.simps [of used baseName counter])
    moreover have "counter \<le> k" using k(1) by arith
    ultimately show ?thesis using k(3) by (intro exI [of _ k]) simp
  next
    case False
    then have "uniqueFrom used baseName counter = baseName @ digitsOf counter"
      by (simp add: uniqueFrom.simps [of used baseName counter])
    then show ?thesis using False by (intro exI [of _ counter]) auto
  qed
qed

lemma digitsOf_two: "digitsOf 2 = ''2''"
  by (simp add: digitsOf.simps digitChars_def)

lemma ensureUniqueName_fresh: "ensureUniqueName baseName st \<notin> set (usedNames st)"
  using uniqueFrom_least [of 2 "usedNames st" baseName] by (auto simp: ensureUniqueName_def)



lemma ensureUniqueName_two:
  assumes "baseName \<in> set (usedNames st)" and "baseName @ ''2'' \<notin> set (usedNames st)"
  shows "ensureUniqueName baseName st = baseName @ ''2''"
  using assms by (simp add: ensureUniqueName_def uniqueFrom.simps [of _ _ 2] digitsOf_two)

lemma generateCleanInterfaceName_nonempty:
  "generateCleanInterfaceName h isGeneric = Inr name \<Longrightarrow> name \<noteq> []"
  by (cases h) (auto simp: generateCleanInterfaceName_def Let_def split: if_splits)

lemma interfaceNameOf_string: "name \<noteq> [] \<Longrightarrow> interfaceNameOf (HStr name) = Inr name"
  by (cases name) (simp_all add: interfaceNameOf_def)


subsection \<open>The element type of an array\<close>

definition primitiveLabels :: "string list" where
  \<comment> \<open>what the first loop of \<^verbatim>\<open>generateArrayType\<close> adds for \<^verbatim>\<open>null\<close> and by \<^verbatim>\<open>typeof\<close>\<close>
  "primitiveLabels = [''null'', ''boolean'', ''number'', ''string'']"

lemma endsWith_append: "endsWith suf' suf \<Longrightarrow> endsWith (s @ suf') suf"
proof -
  assume a: "endsWith suf' suf"
  then have le: "length suf \<le> length suf'" by (simp add: endsWith_def)
  then have "length (s @ suf') - length suf = length s + (length suf' - length suf)"
    by simp
  then show ?thesis using a le by (simp add: endsWith_def)
qed

lemma endsWith_arrayTypeOf: "endsWith (arrayTypeOf types) ''[]''"
proof -
  have 0: "endsWith ''unknown[]'' ''[]''" by (simp add: endsWith_def)
  have 1: "endsWith (s @ ''[]'') ''[]''" for s by (simp add: endsWith_def)
  have 2: "endsWith (''('' @ s @ '')[]'') ''[]''" for s
    using endsWith_append [of "'')[]''" "''[]''" "''('' @ s"] by (simp add: endsWith_def)
  show ?thesis
    unfolding arrayTypeOf_def Let_def using 0 1 2 by (simp del: append.simps)
qed

lemma generateArrayType_is_array:
  assumes "generateArrayType lc arr h st = Inr (t, st')"
  shows "endsWith t ''[]''"
proof -
  have "\<exists>types. t = arrayTypeOf types"
    using assms
    by (auto simp: generateArrayType.simps split: sum.splits prod.splits list.splits if_splits)
  then show ?thesis by (elim exE) (simp add: endsWith_arrayTypeOf)
qed

definition elementLabel :: "string \<Rightarrow> bool" where
  \<comment> \<open>the label of an element that is no object: a primitive label or an array type\<close>
  "elementLabel p = (p \<in> set primitiveLabels \<or> endsWith p ''[]'')"

lemma typeof_elementLabel:
  "elementLabel (typeof (JBool b))" "elementLabel (typeof (JNum n))"
  "elementLabel (typeof (JStr s))" "elementLabel ''null''"
  by (simp_all add: elementLabel_def primitiveLabels_def)

lemma labels_step:
  assumes "\<forall>p\<in>set types. p \<in> set (setAdd ps x) \<or> elementLabel p" and "elementLabel x"
  shows "\<forall>p\<in>set types. p \<in> set ps \<or> elementLabel p"
  using assms unfolding set_setAdd by auto

lemma primitiveTypesOf_labels:
  assumes "primitiveTypesOf lc arr h ps st = Inr (types, st')"
  shows "\<forall>p\<in>set types. p \<in> set ps \<or> elementLabel p"
  using assms
proof (induction arr arbitrary: ps st)
  case Nil
  then show ?case by (simp add: primitiveTypesOf.simps)
next
  case (Cons item arr)
  show ?case
  proof (cases item)
    case JNull
    then have "primitiveTypesOf lc arr h (setAdd ps ''null'') st = Inr (types, st')"
      using Cons.prems by (simp add: primitiveTypesOf.simps)
    from Cons.IH [OF this] show ?thesis
      by (rule labels_step) (rule typeof_elementLabel(4))
  next
    case (JBool b)
    then have "primitiveTypesOf lc arr h (setAdd ps (typeof (JBool b))) st = Inr (types, st')"
      using Cons.prems by (simp add: primitiveTypesOf.simps del: typeof.simps)
    from Cons.IH [OF this] show ?thesis
      by (rule labels_step) (rule typeof_elementLabel(1))
  next
    case (JNum n)
    then have "primitiveTypesOf lc arr h (setAdd ps (typeof (JNum n))) st = Inr (types, st')"
      using Cons.prems by (simp add: primitiveTypesOf.simps del: typeof.simps)
    from Cons.IH [OF this] show ?thesis
      by (rule labels_step) (rule typeof_elementLabel(2))
  next
    case (JStr s)
    then have "primitiveTypesOf lc arr h (setAdd ps (typeof (JStr s))) st = Inr (types, st')"
      using Cons.prems by (simp add: primitiveTypesOf.simps del: typeof.simps)
    from Cons.IH [OF this] show ?thesis
      by (rule labels_step) (rule typeof_elementLabel(3))
  next
    case (JArr nested)
    then obtain t st1 where nested: "generateArrayType lc nested h st = Inr (t, st1)"
      and rest: "primitiveTypesOf lc arr h (setAdd ps t) st1 = Inr (types, st')"
      using Cons.prems by (auto simp: primitiveTypesOf.simps split: sum.splits prod.splits)
    have "elementLabel t"
      using generateArrayType_is_array [OF nested] by (simp add: elementLabel_def)
    with Cons.IH [OF rest] show ?thesis
      by (rule labels_step)
  next
    case (JObj obj)
    then have "primitiveTypesOf lc arr h ps st = Inr (types, st')"
      using Cons.prems by (simp add: primitiveTypesOf.simps)
    from Cons.IH [OF this] show ?thesis .
  qed
qed

text \<open>C4 as stated fails: in \<^verbatim>\<open>{"a": {"x": 1, "y": 2}, "b": [{"x": 1}, {"y": 2}]}\<close> the two
  elements of the array differ in signature, and the signature of their merge is that of
  the definition \<^verbatim>\<open>A\<close> made for the object under \<^verbatim>\<open>a\<close>. No definition is made for the
  elements: they are typed \<^verbatim>\<open>A\<close>, in which \<^verbatim>\<open>x\<close> and \<^verbatim>\<open>y\<close> are both required.\<close>

theorem heterogeneous_array_reuses_definition:
  "map_sum id (\<lambda>r. (fst r, interfaces (snd r)))
     (generateFromJson codeUnitCompare
        (JObj [(''a'', JObj [(''x'', JNum 1), (''y'', JNum 2)]),
               (''b'', JArr [JObj [(''x'', JNum 1)], JObj [(''y'', JNum 2)]])])
        ''RootInterface'' emptyState)
   = Inr (join [CHR 0x0A]
            [''export interface RootInterface {'', ''  a: A;'', ''  b: A[];'', ''}'', [],
             ''export interface A {'', ''  x: number;'', ''  y: number;'', ''}''],
          [(''A'', interfaceText ''A'' [''  x: number;'', ''  y: number;'']),
           (''RootInterface'', interfaceText ''RootInterface'' [''  a: A;'', ''  b: A[];''])])"
  unfolding generateFromJson_def by code_simp

text \<open>C4, amended. When the objects of an array do not all have the signature of the first,
  a call of \<^verbatim>\<open>generateArrayType\<close> that returns has made one call of \<^verbatim>\<open>generateObjectType\<close>
  for them, and the name it returns is the one member of the element type that stands for
  the objects: it comes last, after the labels of the other elements, each of which is
  \<^verbatim>\<open>null\<close>, \<^verbatim>\<open>boolean\<close>, \<^verbatim>\<open>number\<close>, \<^verbatim>\<open>string\<close> or the array type of a nested array. The call is
  made on the merge of the objects:
  \<^item> the keys of the merged shape, and of the merged type sets, are the keys of all the objects;
  \<^item> the type set of a key holds the label of every primitive value found under the key,
    and the marker \<^verbatim>\<open>missing\<close> when an object lacks the key (the keys of an object being
    distinct).

  What the call does then depends on the registry:
  \<^item> a definition with the signature of the merge is reused as it is, and nothing is made;
  \<^item> otherwise a definition of the same base name whose signature reads back to the same
    field names is rewritten in place;
  \<^item> otherwise exactly one definition is registered, under a name that was not in use, with
    one line for each key of the merged shape, rendered from the type set of the key.

  The name is a name of \<^verbatim>\<open>interfaceStructures\<close> in all three cases, and a name of
  \<^verbatim>\<open>interfaces\<close> when the call started from a registry in which every signature has a
  definition, as the empty registry has and every method keeps.\<close>

theorem heterogeneous_array_one_interface:
  assumes "generateArrayType lc arr h st = Inr (t, st')"
    and "objectsOf arr = firstObj # others"
    and "\<not> sameStructures firstObj others"
  shows "\<exists>types st1 itemName propertyTypes st2 name.
           primitiveTypesOf lc arr h [] st = Inr (types, st1)
         \<and> generateCleanInterfaceName h False = Inr itemName
         \<and> mergeObjectsWithUnionTypes lc (objectsOf arr) st1 = Inr (propertyTypes, st2)
         \<and> generateObjectType lc (mergedShape (objectsOf arr)) (HStr itemName)
              (Some propertyTypes) st2 = Inr (name, st')
         \<and> t = arrayTypeOf (types @ [name])
         \<and> (\<forall>p\<in>set types. elementLabel p)
         \<and> fst ` set (mergedShape (objectsOf arr)) = (\<Union>obj\<in>set (objectsOf arr). fst ` set obj)
         \<and> fst ` set propertyTypes = (\<Union>obj\<in>set (objectsOf arr). fst ` set obj)
         \<and> (\<forall>obj\<in>set (objectsOf arr). \<forall>entry\<in>set obj.
               primitiveValue (snd entry)
               \<longrightarrow> primitiveLabel (snd entry) \<in> set (typeSet propertyTypes (fst entry)))
         \<and> ((\<forall>obj\<in>set (objectsOf arr). distinct (map fst obj))
              \<longrightarrow> (\<forall>obj\<in>set (objectsOf arr). \<forall>key\<in>fst ` set propertyTypes.
                     key \<notin> fst ` set obj \<longrightarrow> ''missing'' \<in> set (typeSet propertyTypes key)))
         \<and> (\<forall>existing.
               truthyName (findExistingInterface
                  (generateInterfaceStructure (mergedShape (objectsOf arr)) (Some propertyTypes))
                  st2) = Some existing
               \<longrightarrow> name = existing \<and> st' = st2)
         \<and> (\<forall>similar.
               truthyName (findExistingInterface
                  (generateInterfaceStructure (mergedShape (objectsOf arr)) (Some propertyTypes))
                  st2) = None
               \<and> truthyName (findSimilarInterface
                  (generateInterfaceStructure (mergedShape (objectsOf arr)) (Some propertyTypes))
                  itemName st2) = Some similar
               \<longrightarrow> name = similar
                 \<and> mergeInterfaces lc similar (mergedShape (objectsOf arr)) (Some propertyTypes) st2
                     = Inr (name, st'))
         \<and> (truthyName (findExistingInterface
                  (generateInterfaceStructure (mergedShape (objectsOf arr)) (Some propertyTypes))
                  st2) = None
             \<and> truthyName (findSimilarInterface
                  (generateInterfaceStructure (mergedShape (objectsOf arr)) (Some propertyTypes))
                  itemName st2) = None
             \<longrightarrow> name = ensureUniqueName itemName st2
               \<and> name \<notin> set (usedNames st2)
               \<and> st' = registerInterface name
                          (interfaceText name
                             (typedLines propertyTypes (mergedShape (objectsOf arr))))
                          (generateInterfaceStructure (mergedShape (objectsOf arr))
                             (Some propertyTypes))
                          st2)
         \<and> name \<in> fst ` set (interfaceStructures st')
         \<and> (registryInv st \<longrightarrow> name \<in> fst ` set (interfaces st'))"
proof -
  define objects where "objects = objectsOf arr"
  define shape where "shape = mergedShape objects"
  obtain types st1 where prims: "primitiveTypesOf lc arr h [] st = Inr (types, st1)"
    using assms(1) by (auto simp: generateArrayType.simps split: sum.splits)
  obtain itemName where item: "generateCleanInterfaceName h False = Inr itemName"
    using assms(1,2) prims by (auto simp: generateArrayType.simps split: sum.splits)
  obtain propertyTypes st2 where
    merged: "mergeObjectsWithUnionTypes lc objects st1 = Inr (propertyTypes, st2)"
    using assms prims item unfolding objects_def
    by (auto simp: generateArrayType.simps split: sum.splits)
  define sig where "sig = generateInterfaceStructure shape (Some propertyTypes)"
  obtain name where
    obj: "generateObjectType lc shape (HStr itemName) (Some propertyTypes) st2 = Inr (name, st')"
    and t: "t = arrayTypeOf (types @ [name])"
    using assms prims item merged unfolding objects_def shape_def
    by (auto simp: generateArrayType.simps split: sum.splits)
  have labels: "\<forall>p\<in>set types. elementLabel p"
    using primitiveTypesOf_labels [OF prims] by simp
  note keys = mergeObjectsWithUnionTypes_keys [OF merged]
  have shapeKeys: "fst ` set shape = (\<Union>obj\<in>set objects. fst ` set obj)"
    unfolding shape_def by (rule keys_mergedShape [OF keys(1)])
  have gathered: "\<forall>obj\<in>set objects. \<forall>entry\<in>set obj.
      primitiveValue (snd entry) \<longrightarrow> primitiveLabel (snd entry) \<in> set (typeSet propertyTypes (fst entry))"
  proof (intro ballI impI)
    fix obj entry
    assume "obj \<in> set objects" and "entry \<in> set obj" and "primitiveValue (snd entry)"
    from labels_gathered [OF merged this(1) _ this(3), of "fst entry"] this(2)
    show "primitiveLabel (snd entry) \<in> set (typeSet propertyTypes (fst entry))" by simp
  qed
  have missing: "(\<forall>obj\<in>set objects. distinct (map fst obj))
      \<longrightarrow> (\<forall>obj\<in>set objects. \<forall>key\<in>fst ` set propertyTypes.
             key \<notin> fst ` set obj \<longrightarrow> ''missing'' \<in> set (typeSet propertyTypes key))"
  proof (intro impI ballI)
    fix obj key
    assume "\<forall>obj\<in>set objects. distinct (map fst obj)" and "obj \<in> set objects"
      and "key \<in> fst ` set propertyTypes" and "key \<notin> fst ` set obj"
    from missing_marked [OF merged this(1,2,4,3)]
    show "''missing'' \<in> set (typeSet propertyTypes key)" .
  qed
  have nonempty: "itemName \<noteq> []"
    using item by (rule generateCleanInterfaceName_nonempty)
  note candidate = interfaceNameOf_string [OF nonempty]
  have reuse: "\<forall>existing. truthyName (findExistingInterface sig st2) = Some existing
      \<longrightarrow> name = existing \<and> st' = st2"
    using obj unfolding sig_def by (auto simp: generateObjectType.simps)
  have widen: "\<forall>similar. truthyName (findExistingInterface sig st2) = None
      \<and> truthyName (findSimilarInterface sig itemName st2) = Some similar
      \<longrightarrow> name = similar \<and> mergeInterfaces lc similar shape (Some propertyTypes) st2 = Inr (name, st')"
  proof (intro allI impI)
    fix similar
    assume "truthyName (findExistingInterface sig st2) = None
      \<and> truthyName (findSimilarInterface sig itemName st2) = Some similar"
    then have "mergeInterfaces lc similar shape (Some propertyTypes) st2 = Inr (name, st')"
      using obj candidate unfolding sig_def by (simp add: generateObjectType.simps)
    with mergeInterfaces_result(1) [OF this]
    show "name = similar
      \<and> mergeInterfaces lc similar shape (Some propertyTypes) st2 = Inr (name, st')"
      by simp
  qed
  have typed: "objectProperties lc shape (Some propertyTypes) st2
      = Inr (typedLines propertyTypes shape, st2)"
    by (rule objectProperties_typed) (simp add: shapeKeys keys(2))
  have create: "truthyName (findExistingInterface sig st2) = None
      \<and> truthyName (findSimilarInterface sig itemName st2) = None
      \<longrightarrow> name = ensureUniqueName itemName st2
        \<and> name \<notin> set (usedNames st2)
        \<and> st' = registerInterface name (interfaceText name (typedLines propertyTypes shape)) sig st2"
  proof
    assume "truthyName (findExistingInterface sig st2) = None
      \<and> truthyName (findSimilarInterface sig itemName st2) = None"
    then have "name = ensureUniqueName itemName st2"
      and "st' = registerInterface name (interfaceText name (typedLines propertyTypes shape)) sig st2"
      using obj candidate typed unfolding sig_def by (auto simp: generateObjectType.simps)
    then show "name = ensureUniqueName itemName st2
        \<and> name \<notin> set (usedNames st2)
        \<and> st' = registerInterface name (interfaceText name (typedLines propertyTypes shape)) sig st2"
      using ensureUniqueName_fresh [of itemName st2] by simp
  qed
  have defined: "registryInv st \<longrightarrow> name \<in> fst ` set (interfaces st')"
  proof
    assume "registryInv st"
    from registryInv_preserved(1) [OF this prims] have "registryInv st1" .
    from registryInv_preserved(2) [OF this merged] have "registryInv st2" .
    from generateObjectType_defined [OF this obj]
    show "name \<in> fst ` set (interfaces st')" .
  qed
  note registered = generateObjectType_registered(1) [OF obj]
  show ?thesis
    using prims item merged obj t labels shapeKeys keys(2) gathered missing reuse widen create
      registered defined
    unfolding sig_def shape_def objects_def
    by (intro exI conjI) assumption+
qed

lemma result_of_projection: "map_sum id fst r = Inr t \<Longrightarrow> \<exists>s. r = Inr (t, s)"
  by (cases r) auto

theorem heterogeneous_array_one_interface_witness:
  "\<exists>st' propertyTypes.
     generateArrayType codeUnitCompare
         [JNum 7, JObj [(''a'', JNum 1)], JObj [(''a'', JStr ''x''), (''b'', JNum 2)]]
         (HStr ''RootInterface'') emptyState
       = Inr (''(number | Item)[]'', st')
   \<and> objectsOf [JNum 7, JObj [(''a'', JNum 1)], JObj [(''a'', JStr ''x''), (''b'', JNum 2)]]
       = [(''a'', JNum 1)] # [[(''a'', JStr ''x''), (''b'', JNum 2)]]
   \<and> \<not> sameStructures [(''a'', JNum 1)] [[(''a'', JStr ''x''), (''b'', JNum 2)]]
   \<and> mergeObjectsWithUnionTypes codeUnitCompare
         [[(''a'', JNum 1)], [(''a'', JStr ''x''), (''b'', JNum 2)]] emptyState
       = Inr (propertyTypes, emptyState)
   \<and> fst ` set (mergedShape [[(''a'', JNum 1)], [(''a'', JStr ''x''), (''b'', JNum 2)]])
       = {''a'', ''b''}
   \<and> fst ` set propertyTypes = {''a'', ''b''}
   \<and> ''number'' \<in> set (typeSet propertyTypes ''a'')
   \<and> ''string'' \<in> set (typeSet propertyTypes ''a'')
   \<and> ''number'' \<in> set (typeSet propertyTypes ''b'')
   \<and> ''missing'' \<in> set (typeSet propertyTypes ''b'')
   \<and> ''Item'' \<notin> set (usedNames emptyState)
   \<and> st' = registerInterface ''Item''
              (interfaceText ''Item'' [''  a: number | string;'', ''  b?: number | undefined;''])
              ''a:(number|string);b:number'' emptyState
   \<and> ''Item'' \<in> fst ` set (interfaceStructures st')
   \<and> ''Item'' \<in> fst ` set (interfaces st')"
proof -
  define arr where
    "arr = [JNum 7, JObj [(''a'', JNum 1)], JObj [(''a'', JStr ''x''), (''b'', JNum 2)]]"
  define objects where
    "objects = [[(''a'', JNum 1)], [(''a'', JStr ''x''), (''b'', JNum 2)]]"
  define pt where
    "pt = [(''a'', [''number'', ''string'']), (''b'', [''number'', ''missing''])]"
  have "map_sum id fst (generateArrayType codeUnitCompare arr (HStr ''RootInterface'') emptyState)
    = Inr ''(number | Item)[]''"
    unfolding arr_def by code_simp
  from result_of_projection [OF this] obtain st' where
    run: "generateArrayType codeUnitCompare arr (HStr ''RootInterface'') emptyState
            = Inr (''(number | Item)[]'', st')" ..
  have objs: "objectsOf arr = [(''a'', JNum 1)] # [[(''a'', JStr ''x''), (''b'', JNum 2)]]"
    unfolding arr_def by simp
  have objs': "objectsOf arr = objects"
    unfolding arr_def objects_def by simp
  have hetero: "\<not> sameStructures [(''a'', JNum 1)] [[(''a'', JStr ''x''), (''b'', JNum 2)]]"
    by code_simp
  have keys: "(\<Union>obj\<in>set objects. fst ` set obj) = {''a'', ''b''}"
    unfolding objects_def by auto
  have distinct: "\<forall>obj\<in>set objects. distinct (map fst obj)"
    unfolding objects_def by simp
  have prims0: "primitiveTypesOf codeUnitCompare arr (HStr ''RootInterface'') [] emptyState
      = Inr ([''number''], emptyState)"
    unfolding arr_def by code_simp
  have item0: "generateCleanInterfaceName (HStr ''RootInterface'') False = Inr ''Item''"
    by code_simp
  have merged0: "mergeObjectsWithUnionTypes codeUnitCompare objects emptyState
      = Inr (pt, emptyState)"
    unfolding objects_def pt_def by code_simp
  have noExact: "truthyName (findExistingInterface
      (generateInterfaceStructure (mergedShape objects) (Some pt)) emptyState) = None"
    unfolding objects_def pt_def by code_simp
  have noSimilar: "truthyName (findSimilarInterface
      (generateInterfaceStructure (mergedShape objects) (Some pt)) ''Item'' emptyState) = None"
    unfolding objects_def pt_def by code_simp
  have unique: "ensureUniqueName ''Item'' emptyState = ''Item''"
    by code_simp
  have body: "interfaceText ''Item'' (typedLines pt (mergedShape objects))
      = interfaceText ''Item'' [''  a: number | string;'', ''  b?: number | undefined;'']"
    unfolding objects_def pt_def by code_simp
  have sig: "generateInterfaceStructure (mergedShape objects) (Some pt) = ''a:(number|string);b:number''"
    unfolding objects_def pt_def by code_simp
  from heterogeneous_array_one_interface [OF run objs hetero]
  obtain types st1 itemName propertyTypes st2 name where
    prims: "primitiveTypesOf codeUnitCompare arr (HStr ''RootInterface'') [] emptyState
              = Inr (types, st1)"
    and item: "generateCleanInterfaceName (HStr ''RootInterface'') False = Inr itemName"
    and merged: "mergeObjectsWithUnionTypes codeUnitCompare (objectsOf arr) st1
              = Inr (propertyTypes, st2)"
    and shapeKeys: "fst ` set (mergedShape (objectsOf arr))
              = (\<Union>obj\<in>set (objectsOf arr). fst ` set obj)"
    and typeKeys: "fst ` set propertyTypes = (\<Union>obj\<in>set (objectsOf arr). fst ` set obj)"
    and gathered: "\<forall>obj\<in>set (objectsOf arr). \<forall>entry\<in>set obj.
               primitiveValue (snd entry)
               \<longrightarrow> primitiveLabel (snd entry) \<in> set (typeSet propertyTypes (fst entry))"
    and missing: "(\<forall>obj\<in>set (objectsOf arr). distinct (map fst obj))
              \<longrightarrow> (\<forall>obj\<in>set (objectsOf arr). \<forall>key\<in>fst ` set propertyTypes.
                     key \<notin> fst ` set obj \<longrightarrow> ''missing'' \<in> set (typeSet propertyTypes key))"
    and create: "truthyName (findExistingInterface
                  (generateInterfaceStructure (mergedShape (objectsOf arr)) (Some propertyTypes))
                  st2) = None
             \<and> truthyName (findSimilarInterface
                  (generateInterfaceStructure (mergedShape (objectsOf arr)) (Some propertyTypes))
                  itemName st2) = None
             \<longrightarrow> name = ensureUniqueName itemName st2
               \<and> name \<notin> set (usedNames st2)
               \<and> st' = registerInterface name
                          (interfaceText name
                             (typedLines propertyTypes (mergedShape (objectsOf arr))))
                          (generateInterfaceStructure (mergedShape (objectsOf arr))
                             (Some propertyTypes))
                          st2"
    and registered: "name \<in> fst ` set (interfaceStructures st')"
    and defined: "registryInv emptyState \<longrightarrow> name \<in> fst ` set (interfaces st')"
    by (elim exE conjE) (rule that; assumption)
  have st1: "st1 = emptyState" using prims prims0 by simp
  have itemName: "itemName = ''Item''" using item item0 by simp
  have known: "propertyTypes = pt" "st2 = emptyState"
    using merged merged0 unfolding objs' st1 by simp_all
  have made: "name = ''Item''" "name \<notin> set (usedNames emptyState)"
    "st' = registerInterface ''Item''
              (interfaceText ''Item'' [''  a: number | string;'', ''  b?: number | undefined;''])
              ''a:(number|string);b:number'' emptyState"
    using create noExact noSimilar unique body sig unfolding objs' known itemName by auto
  have a1: "''number'' \<in> set (typeSet pt ''a'')"
    using gathered [unfolded objs' known, rule_format, of "[(''a'', JNum 1)]" "(''a'', JNum 1)"]
    by (simp add: objects_def primitiveValue_def primitiveLabel_def)
  have a2: "''string'' \<in> set (typeSet pt ''a'')"
    using gathered [unfolded objs' known, rule_format,
                    of "[(''a'', JStr ''x''), (''b'', JNum 2)]" "(''a'', JStr ''x'')"]
    by (simp add: objects_def primitiveValue_def primitiveLabel_def)
  have b1: "''number'' \<in> set (typeSet pt ''b'')"
    using gathered [unfolded objs' known, rule_format,
                    of "[(''a'', JStr ''x''), (''b'', JNum 2)]" "(''b'', JNum 2)"]
    by (simp add: objects_def primitiveValue_def primitiveLabel_def)
  have b2: "''missing'' \<in> set (typeSet pt ''b'')"
    using missing [unfolded objs' known, THEN mp, OF distinct, rule_format,
                   of "[(''a'', JNum 1)]" "''b''"]
      typeKeys [unfolded objs' known keys]
    by (simp add: objects_def)
  show ?thesis
    using run [unfolded arr_def] objs [unfolded arr_def] hetero merged0 [unfolded objects_def]
      shapeKeys [unfolded objs' keys, unfolded objects_def]
      typeKeys [unfolded objs' known keys] a1 a2 b1 b2 made(2) [unfolded made(1)] made(3)
      registered [unfolded made(1)] defined [rule_format, OF registryInv_empty, unfolded made(1)]
    by (intro exI [of _ st'] exI [of _ pt] conjI) assumption+
qed

subsection \<open>Reuse of a definition with the same signature\<close>

fun plainValue :: "json \<Rightarrow> bool" where
  \<comment> \<open>a value with no object in it: a primitive, or an array of such values\<close>
  "plainValue (JObj obj) = False"
| "plainValue (JArr arr) = list_all plainValue arr"
| "plainValue v = True"

definition plainObject :: "(string \<times> json) list \<Rightarrow> bool" where
  \<comment> \<open>an object without nested objects\<close>
  "plainObject obj = list_all (\<lambda>entry. plainValue (snd entry)) obj"

lemma objectsOf_plain: "list_all plainValue arr \<Longrightarrow> objectsOf arr = []"
  by (induction arr rule: objectsOf.induct) simp_all

lemma primitiveTypesOf_plain:
  assumes "\<And>x h st. x \<in> set arr \<Longrightarrow> plainValue x \<Longrightarrow> \<exists>t. generateType lc x h st = Inr (t, st)"
    and "list_all plainValue arr"
  shows "\<exists>types. primitiveTypesOf lc arr h ps st = Inr (types, st)"
  using assms
proof (induction arr arbitrary: ps)
  case Nil
  show ?case by (simp add: primitiveTypesOf.simps)
next
  case (Cons item arr)
  have rest: "\<exists>types. primitiveTypesOf lc arr h ps' st = Inr (types, st)" for ps'
    using Cons.prems by (intro Cons.IH) simp_all
  show ?case
  proof (cases item)
    case JNull
    then show ?thesis using rest by (simp add: primitiveTypesOf.simps)
  next
    case (JBool b)
    then show ?thesis using rest by (simp add: primitiveTypesOf.simps)
  next
    case (JNum n)
    then show ?thesis using rest by (simp add: primitiveTypesOf.simps)
  next
    case (JStr s)
    then show ?thesis using rest by (simp add: primitiveTypesOf.simps)
  next
    case (JArr nested)
    then have "plainValue (JArr nested)" using Cons.prems(2) by simp
    from Cons.prems(1) [OF _ this, of h st] JArr
    obtain t where "generateArrayType lc nested h st = Inr (t, st)"
      by (auto simp: generateType.simps)
    then show ?thesis using JArr rest by (simp add: primitiveTypesOf.simps)
  next
    case (JObj obj)
    then show ?thesis using Cons.prems(2) by simp
  qed
qed

lemma generateType_plain: "plainValue v \<Longrightarrow> \<exists>t. generateType lc v h st = Inr (t, st)"
proof (induction v arbitrary: h st)
  case (JArr arr)
  then have all: "list_all plainValue arr" by simp
  have "\<exists>types. primitiveTypesOf lc arr h [] st = Inr (types, st)"
    using JArr.IH all by (intro primitiveTypesOf_plain) auto
  then show ?case
    using objectsOf_plain [OF all] by (auto simp: generateType.simps generateArrayType.simps)
qed (simp_all add: generateType.simps)

lemma objectProperties_plain:
  "plainObject obj \<Longrightarrow> \<exists>lines. objectProperties lc obj None st = Inr (lines, st)"
proof (induction obj)
  case Nil
  show ?case by (simp add: objectProperties.simps)
next
  case (Cons entry obj)
  obtain key v where entry: "entry = (key, v)" by (cases entry)
  have "plainValue v" using Cons.prems entry by (simp add: plainObject_def)
  from generateType_plain [OF this, of lc "generateCleanChildName key" st]
  obtain t where t: "generateType lc v (generateCleanChildName key) st = Inr (t, st)" ..
  have "plainObject obj" using Cons.prems by (simp add: plainObject_def)
  from Cons.IH [OF this]
  obtain lines where "objectProperties lc obj None st = Inr (lines, st)" ..
  then show ?case
    using t entry by (simp add: objectProperties.simps ownTypes_def)
qed


lemma find_extended: "find P m = Some x \<Longrightarrow> find P (m @ added) = Some x"
  by (induction m) auto






lemma plain_object_extends_registry:
  assumes "generateObjectType lc obj h None st = Inr (name, st')"
    and "plainObject obj"
    and "interfaceNameOf h = Inr c"
    and "truthyName (findSimilarInterface (generateInterfaceStructure obj None) c st) = None"
    and "fst ` set (interfaceStructures st) \<subseteq> set (usedNames st)"
  shows "\<exists>added. interfaceStructures st' = interfaceStructures st @ added"
proof (cases "truthyName (findExistingInterface (generateInterfaceStructure obj None) st)")
  case (Some existing)
  then have "st' = st"
    using assms(1) by (simp add: generateObjectType.simps)
  then show ?thesis by simp
next
  case None
  from objectProperties_plain [OF assms(2), of lc st]
  obtain lines where "objectProperties lc obj None st = Inr (lines, st)" ..
  then have name: "name = ensureUniqueName c st"
    and st': "interfaceStructures st'
        = mapSet (interfaceStructures st) name (generateInterfaceStructure obj None)"
    using assms(1,3,4) None by (auto simp: generateObjectType.simps registerInterface_def)
  have "name \<notin> fst ` set (interfaceStructures st)"
    using ensureUniqueName_fresh [of c st] assms(5) unfolding name by blast
  then show ?thesis unfolding st' by (simp add: mapSet_def)
qed

lemma first_definition_is_reused:
  assumes "findExistingInterface (generateInterfaceStructure obj1 None) st1 = Some name"
    and "name \<noteq> []"
    and "interfaceStructures st2 = interfaceStructures st1 @ added"
    and "generateInterfaceStructure obj2 None = generateInterfaceStructure obj1 None"
  shows "generateObjectType lc obj2 h2 None st2 = Inr (name, st2)"
proof -
  have "findExistingInterface (generateInterfaceStructure obj2 None) st2 = Some name"
    using assms(1) unfolding findExistingInterface_def assms(3,4)
    by (auto dest: find_extended [where added = added])
  then have "truthyName (findExistingInterface (generateInterfaceStructure obj2 None) st2)
      = Some name"
    using assms(2) by (cases name) (simp_all add: truthyName_def)
  then show ?thesis by (simp add: generateObjectType.simps)
qed



text \<open>An object with a nested object of its own signature does not keep the first place: in
  \<^verbatim>\<open>{"q": {"y": 2}, "r": {"x": {"x": {"y": 2}}}, "s": {"x": {"x": {"y": 2}}}}\<close> the object
  under \<^verbatim>\<open>r.x\<close> is registered as \<^verbatim>\<open>X\<close> before the object under \<^verbatim>\<open>r\<close> is registered as
  \<^verbatim>\<open>R\<close>, both with the signature \<^verbatim>\<open>x:object\<close>, and the identical object under \<^verbatim>\<open>s\<close> is
  given the name \<^verbatim>\<open>X\<close>.\<close>

lemma nested_object_of_same_signature:
  "map_sum id (\<lambda>r. (fst r, interfaceStructures (snd r)))
     (generateFromJson lc
        (JObj [(''q'', JObj [(''y'', JNum 2)]),
               (''r'', JObj [(''x'', JObj [(''x'', JObj [(''y'', JNum 2)])])]),
               (''s'', JObj [(''x'', JObj [(''x'', JObj [(''y'', JNum 2)])])])])
        ''RootInterface'' st)
   = Inr (join [CHR 0x0A]
            [''export interface RootInterface {'', ''  q: Q;'', ''  r: R;'', ''  s: X;'', ''}'', [],
             ''export interface R {'', ''  x: X;'', ''}'', [],
             ''export interface X {'', ''  x: Q;'', ''}'', [],
             ''export interface Q {'', ''  y: number;'', ''}''],
          [(''Q'', ''y:number''), (''X'', ''x:object''), (''R'', ''x:object''),
           (''RootInterface'', ''q:object;r:object;s:object'')])"
  unfolding generateFromJson_def by code_simp

text \<open>In the run of \<^verbatim>\<open>generateFromJson\<close>: when the two fields of the root hold objects of one
  signature, the first without nested objects, one definition is made for the two, and both
  fields are referenced by its name.\<close>

lemma sibling_objects_one_definition:
  assumes plain: "plainObject obj1"
    and same: "generateInterfaceStructure obj2 None = generateInterfaceStructure obj1 None"
    and name: "interfaceNameOf (generateCleanChildName key1) = Inr name"
    and root: "rootName \<noteq> []" "rootName \<noteq> name"
  shows "\<exists>lines.
    map_sum id (\<lambda>r. interfaces (snd r))
      (generateFromJson lc (JObj [(key1, JObj obj1), (key2, JObj obj2)]) rootName st)
    = Inr [(name, interfaceText name lines),
           (rootName, interfaceText rootName
                        [propertyLine key1 False name, propertyLine key2 False name])]"
proof -
  define s where "s = generateInterfaceStructure obj1 None"
  from objectProperties_plain [OF plain, of lc emptyState]
  obtain lines where lines: "objectProperties lc obj1 None emptyState = Inr (lines, emptyState)" ..
  define st1 where "st1 = registerInterface name (interfaceText name lines) s emptyState"
  have nonempty: "name \<noteq> []" using name by (rule interfaceNameOf_nonempty)
  have first: "generateObjectType lc obj1 (generateCleanChildName key1) None emptyState
      = Inr (name, st1)"
    using lines name
    by (simp add: generateObjectType.simps findExistingInterface_def findSimilarInterface_def
          truthyName_def emptyState_def ensureUniqueName_def st1_def s_def)
  have structures: "interfaceStructures st1 = [(name, s)]"
    and definitions: "interfaces st1 = [(name, interfaceText name lines)]"
    and used: "usedNames st1 = [name]"
    by (simp_all add: st1_def registerInterface_def emptyState_def mapSet_def setAdd_def)
  have "findExistingInterface s st1 = Some name"
    by (simp add: findExistingInterface_def structures)
  from first_definition_is_reused [OF this [unfolded s_def] nonempty _ same, of st1 "[]"]
  have second: "generateObjectType lc obj2 (generateCleanChildName key2) None st1
      = Inr (name, st1)"
    by simp
  have fields: "objectProperties lc [(key1, JObj obj1), (key2, JObj obj2)] None emptyState
      = Inr ([propertyLine key1 False name, propertyLine key2 False name], st1)"
    using first second
    by (simp add: objectProperties.simps ownTypes_def generateType.simps)
  define sigRoot where
    "sigRoot = generateInterfaceStructure [(key1, JObj obj1), (key2, JObj obj2)] None"
  have "generateType lc (JObj [(key1, JObj obj1), (key2, JObj obj2)]) (HStr rootName) emptyState
      = Inr (rootName,
             registerInterface rootName
               (interfaceText rootName [propertyLine key1 False name, propertyLine key2 False name])
               sigRoot st1)"
    using fields interfaceNameOf_string [OF root(1)]
    by (simp add: generateType.simps generateObjectType.simps findExistingInterface_def
          findSimilarInterface_def truthyName_def emptyState_def ensureUniqueName_def sigRoot_def)
  moreover have "interfaces (registerInterface rootName
               (interfaceText rootName [propertyLine key1 False name, propertyLine key2 False name])
               sigRoot st1)
      = [(name, interfaceText name lines),
         (rootName, interfaceText rootName
                      [propertyLine key1 False name, propertyLine key2 False name])]"
    using root(2) by (simp add: registerInterface_def definitions mapSet_def)
  ultimately show ?thesis
    by (intro exI [of _ lines]) (simp add: generateFromJson_def Let_def)
qed

subsection \<open>The counter of names\<close>


lemma colon_in_key_reads_back:
  "map fst (parseStructure (generateInterfaceStructure [(''a:b'', JNum 1)] None))
   = map fst (parseStructure (generateInterfaceStructure [(''a'', JNum 1)] None))"
  by code_simp





text \<open>In the run of \<^verbatim>\<open>generateFromJson\<close>: when the two fields of the root hold objects
  without nested objects that ask for the same name and do not read back to the same field
  names, the definitions made for them are named by the candidate and by the candidate
  followed by \<^verbatim>\<open>2\<close>.\<close>

lemma sibling_shapes_get_counter:
  assumes plain: "plainObject obj1" "plainObject obj2"
    and name: "interfaceNameOf (generateCleanChildName key1) = Inr candidate"
      "interfaceNameOf (generateCleanChildName key2) = Inr candidate"
    and unlike: "\<not> haveSamePropertyNames
            (map fst (parseStructure (generateInterfaceStructure obj2 None)))
            (map fst (parseStructure (generateInterfaceStructure obj1 None)))"
    and root: "rootName \<noteq> []" "rootName \<noteq> candidate" "rootName \<noteq> candidate @ ''2''"
  shows "\<exists>lines1 lines2.
    map_sum id (\<lambda>r. interfaces (snd r))
      (generateFromJson lc (JObj [(key1, JObj obj1), (key2, JObj obj2)]) rootName st)
    = Inr [(candidate, interfaceText candidate lines1),
           (candidate @ ''2'', interfaceText (candidate @ ''2'') lines2),
           (rootName, interfaceText rootName
                        [propertyLine key1 False candidate,
                         propertyLine key2 False (candidate @ ''2'')])]"
proof -
  define sig1 where "sig1 = generateInterfaceStructure obj1 None"
  define sig2 where "sig2 = generateInterfaceStructure obj2 None"
  from objectProperties_plain [OF plain(1), of lc emptyState]
  obtain lines1 where lines1: "objectProperties lc obj1 None emptyState = Inr (lines1, emptyState)" ..
  define st1 where "st1 = registerInterface candidate (interfaceText candidate lines1) sig1 emptyState"
  have first: "generateObjectType lc obj1 (generateCleanChildName key1) None emptyState
      = Inr (candidate, st1)"
    using lines1 name(1)
    by (simp add: generateObjectType.simps findExistingInterface_def findSimilarInterface_def
          truthyName_def emptyState_def ensureUniqueName_def st1_def sig1_def)
  have structures: "interfaceStructures st1 = [(candidate, sig1)]"
    and definitions: "interfaces st1 = [(candidate, interfaceText candidate lines1)]"
    and used: "usedNames st1 = [candidate]"
    by (simp_all add: st1_def registerInterface_def emptyState_def mapSet_def setAdd_def)
  have differ: "sig2 \<noteq> sig1"
  proof
    assume "sig2 = sig1"
    then have "haveSamePropertyNames (map fst (parseStructure sig2)) (map fst (parseStructure sig1))"
      by (simp add: haveSamePropertyNames_def list_all_iff)
    then show False using unlike by (simp add: sig1_def sig2_def)
  qed
  have noExact: "findExistingInterface sig2 st1 = None"
    using differ by (simp add: findExistingInterface_def structures)
  have noSimilar: "findSimilarInterface sig2 candidate st1 = None"
    using unlike by (simp add: findSimilarInterface_def structures sig1_def sig2_def)
  have unique: "ensureUniqueName candidate st1 = candidate @ ''2''"
    by (rule ensureUniqueName_two) (simp_all add: used)
  from objectProperties_plain [OF plain(2), of lc st1]
  obtain lines2 where lines2: "objectProperties lc obj2 None st1 = Inr (lines2, st1)" ..
  define st2 where
    "st2 = registerInterface (candidate @ ''2'') (interfaceText (candidate @ ''2'') lines2) sig2 st1"
  have second: "generateObjectType lc obj2 (generateCleanChildName key2) None st1
      = Inr (candidate @ ''2'', st2)"
    using lines2 name(2) noExact noSimilar unique
    by (simp add: generateObjectType.simps truthyName_def sig2_def st2_def)
  have definitions2: "interfaces st2
      = [(candidate, interfaceText candidate lines1),
         (candidate @ ''2'', interfaceText (candidate @ ''2'') lines2)]"
    by (simp add: st2_def registerInterface_def definitions mapSet_def)
  have fields: "objectProperties lc [(key1, JObj obj1), (key2, JObj obj2)] None emptyState
      = Inr ([propertyLine key1 False candidate, propertyLine key2 False (candidate @ ''2'')], st2)"
    using first second
    by (simp add: objectProperties.simps ownTypes_def generateType.simps)
  define sigRoot where
    "sigRoot = generateInterfaceStructure [(key1, JObj obj1), (key2, JObj obj2)] None"
  have "generateType lc (JObj [(key1, JObj obj1), (key2, JObj obj2)]) (HStr rootName) emptyState
      = Inr (rootName,
             registerInterface rootName
               (interfaceText rootName
                  [propertyLine key1 False candidate, propertyLine key2 False (candidate @ ''2'')])
               sigRoot st2)"
    using fields interfaceNameOf_string [OF root(1)]
    by (simp add: generateType.simps generateObjectType.simps findExistingInterface_def
          findSimilarInterface_def truthyName_def emptyState_def ensureUniqueName_def sigRoot_def)
  moreover have "interfaces (registerInterface rootName
               (interfaceText rootName
                  [propertyLine key1 False candidate, propertyLine key2 False (candidate @ ''2'')])
               sigRoot st2)
      = [(candidate, interfaceText candidate lines1),
         (candidate @ ''2'', interfaceText (candidate @ ''2'') lines2),
         (rootName, interfaceText rootName
                      [propertyLine key1 False candidate,
                       propertyLine key2 False (candidate @ ''2'')])]"
    using root(2,3) by (simp add: registerInterface_def definitions2 mapSet_def)
  ultimately show ?thesis
    by (intro exI [of _ lines1] exI [of _ lines2]) (simp add: generateFromJson_def Let_def)
qed

end
